theory Spec2Isabelle
  imports Complex_Main "HOL-Library.Char_ord" "HOL-Library.List_Lexorder"
    "HOL-Library.Product_Lexorder" "HOL-Library.Log_Nat"
begin

section \<open>Peer collaboration ranking and feedback assignment\<close>

text \<open>
  A shallow embedding of the ranking and assignment services of the feedback backend:
  \<^verbatim>\<open>services/peer-ranker.ts\<close>, \<^verbatim>\<open>services/collaboration-tracker.ts\<close>,
  \<^verbatim>\<open>services/feedback-assigner.ts\<close> and \<^verbatim>\<open>autoCloseCycles\<close> of the reminder
  system. The relational tables of \<^verbatim>\<open>config/migrate.ts\<close> are lists of records in
  row order, with the columns that these operations read or write. A query without
  \<^verbatim>\<open>ORDER BY\<close> and without \<^verbatim>\<open>GROUP BY\<close> returns its rows in table order; the
  query with \<^verbatim>\<open>GROUP BY\<close> returns its groups in ascending order of the grouping
  columns. Conventions of the model:
  \<^item> row ids are natural numbers (\<^verbatim>\<open>INTEGER PRIMARY KEY AUTOINCREMENT\<close>);
  \<^item> a clock reading is an integer, the milliseconds since the epoch that
    \<^verbatim>\<open>Date.now()\<close> and \<^verbatim>\<open>Date.getTime()\<close> return; it is the parameter \<open>now\<close> of
    every operation that reads the clock, one reading per operation. The times of
    the last interaction, of the calculation of a ranking and of the assignment and
    completion of a request are stored as such readings;
  \<^item> the dates that a query compares as stored values, the end of a cycle, the due
    date of a request and the submission of a response, are stored values, and the
    text of a clock reading that such a query is given is a parameter as well;
  \<^item> the scores of the ranking and the completion rate that \<^verbatim>\<open>autoCloseCycles\<close>
    compares are real numbers; the completion rate of \<^verbatim>\<open>getCycleStats\<close> is
    computed in doubles;
  \<^item> a column that may be \<^verbatim>\<open>NULL\<close> has an option type.
\<close>

subsection \<open>Interaction types\<close>

text \<open>\<^verbatim>\<open>WEIGHTS\<close> is an object literal with four keys of its own. A lookup
  \<^verbatim>\<open>this.WEIGHTS[name]\<close> walks the prototype chain: for the name of a member of
  \<^verbatim>\<open>Object.prototype\<close> it returns that member, a function or an object, which is
  truthy and not a number.\<close>

definition WEIGHTS :: "(string \<times> int) list" where
  "WEIGHTS = [(''chat'', 1), (''meeting'', 3), (''task'', 5), (''file'', 2)]"

definition inherited_names :: "string list" where
  "inherited_names =
     [''constructor'', ''__defineGetter__'', ''__defineSetter__'', ''hasOwnProperty'',
      ''__lookupGetter__'', ''__lookupSetter__'', ''isPrototypeOf'',
      ''propertyIsEnumerable'', ''toString'', ''valueOf'', ''__proto__'',
      ''toLocaleString'']"

text \<open>\<^verbatim>\<open>this.WEIGHTS[name] || 1\<close> as a factor of
  \<^verbatim>\<open>metric.interaction_count * weight\<close>. A key the table does not have reads as
  \<^verbatim>\<open>undefined\<close>, and \<^verbatim>\<open>||\<close> replaces every falsy value (also a weight 0) by 1.
  For an inherited name the value is the inherited member and the product is
  \<^verbatim>\<open>NaN\<close>: there is no weight, \<open>None\<close>.\<close>

definition js_weight :: "string \<Rightarrow> int option" where
  "js_weight name = (case map_of WEIGHTS name of
      Some w \<Rightarrow> Some (if w = 0 then 1 else w)
    | None \<Rightarrow> (if name \<in> set inherited_names then None else Some 1))"

text \<open>A score that is \<^verbatim>\<open>NaN\<close> is bound as \<^verbatim>\<open>NULL\<close>, which the column
  \<^verbatim>\<open>collaboration_score REAL NOT NULL\<close> refuses, so \<^verbatim>\<open>rankPeers\<close> throws for an
  employee with such a row. The interaction types of this model are the other strings:
  the four types that \<^verbatim>\<open>recordInteraction\<close> declares, and every unknown name that
  nothing is inherited for.\<close>

typedef type_name = "{name :: string. name \<notin> set inherited_names}"
  by (rule exI[of _ "''chat''"]) (simp add: inherited_names_def)

setup_lifting type_definition_type_name

lift_definition chat_type :: type_name is "''chat''"
  by (simp add: inherited_names_def)

lift_definition meeting_type :: type_name is "''meeting''"
  by (simp add: inherited_names_def)

lift_definition task_type :: type_name is "''task''"
  by (simp add: inherited_names_def)

lift_definition file_type :: type_name is "''file''"
  by (simp add: inherited_names_def)

text \<open>The weight of an interaction type. The second case does not arise.\<close>

definition weight_of :: "type_name \<Rightarrow> int" where
  "weight_of t = (case js_weight (Rep_type_name t) of Some w \<Rightarrow> w | None \<Rightarrow> 1)"

subsection \<open>Tables\<close>

text \<open>A value stored in a column declared \<^verbatim>\<open>DATETIME\<close>, which is neither a date
  type nor a text type in SQLite: the column has \<^verbatim>\<open>NUMERIC\<close> affinity and stores
  what the statement binds, a number as a number, a text that reads as a number as that
  number, and every other text as it is. \<^verbatim>\<open>CURRENT_TIMESTAMP\<close> is the text
  \<^verbatim>\<open>YYYY-MM-DD HH:MM:SS\<close>. Texts are the byte strings of their encoding.\<close>

datatype sql_value = Number real | Text string

text \<open>The comparisons \<^verbatim>\<open>column < ?\<close> and \<^verbatim>\<open>column > ?\<close> with a parameter bound to a
  text that does not read as a number, such as the result of \<^verbatim>\<open>toISOString\<close>: every
  number is below every text, and two texts compare byte by byte.\<close>

definition sql_less :: "sql_value \<Rightarrow> string \<Rightarrow> bool" where
  "sql_less v t = (case v of Number x \<Rightarrow> True | Text a \<Rightarrow> a < t)"

definition sql_greater :: "sql_value \<Rightarrow> string \<Rightarrow> bool" where
  "sql_greater v t = (case v of Number x \<Rightarrow> False | Text a \<Rightarrow> t < a)"

text \<open>A JavaScript \<^verbatim>\<open>Date\<close> object, by what its two readers return.\<close>

record js_date =
  getTime :: int
  toISOString :: string

record employee =
  e_id :: nat
  e_manager_id :: "nat option"
  e_is_manager :: bool

record collaboration =
  c_employee_id :: nat
  c_peer_id :: nat
  c_interaction_type :: type_name
  c_interaction_count :: int
  c_total_minutes :: int
  c_last_interaction :: int

record peer_ranking_row =
  pr_employee_id :: nat
  pr_peer_id :: nat
  pr_collaboration_score :: real
  pr_rank_position :: nat
  pr_calculated_at :: int

record feedback_cycle =
  fc_id :: string
  fc_end_date :: sql_value
  fc_status :: string

record feedback_request =
  fr_id :: nat
  fr_requester_id :: nat
  fr_provider_id :: nat
  fr_cycle_id :: string
  fr_request_type :: string
  fr_status :: string
  fr_assigned_at :: int
  fr_due_date :: sql_value
  fr_completed_at :: "int option"
  fr_reminder_count :: nat
  fr_last_reminder_at :: "int option"

record feedback_response =
  rs_requester_id :: nat
  rs_provider_id :: nat
  rs_submitted_at :: sql_value

record db =
  employees :: "employee list"
  collaborations :: "collaboration list"
  peer_rankings :: "peer_ranking_row list"
  feedback_cycles :: "feedback_cycle list"
  feedback_requests :: "feedback_request list"
  feedback_responses :: "feedback_response list"
  request_seq :: nat

text \<open>\<open>request_seq\<close> is the last id the \<^verbatim>\<open>AUTOINCREMENT\<close> key of
  \<^verbatim>\<open>feedback_requests\<close> has handed out.\<close>

definition ms_per_day :: int where
  "ms_per_day = 1000 * 60 * 60 * 24"

subsection \<open>peer-ranker.ts\<close>

record CollaborationMetric =
  peer_id :: nat
  interaction_type :: type_name
  interaction_count :: int
  total_minutes :: int
  last_interaction :: int

record PeerRanking =
  rk_peer_id :: nat
  collaboration_score :: real
  rank_position :: nat

text \<open>\<^verbatim>\<open>Math.max(...xs)\<close> on a list that is not empty.\<close>

fun math_max :: "int list \<Rightarrow> int" where
  "math_max [] = 0"
| "math_max (x # xs) = fold max xs x"

definition recencyMultiplier :: "int \<Rightarrow> int \<Rightarrow> real" where
  "recencyMultiplier now mostRecentInteraction =
     (let daysSinceLastInteraction =
            real_of_int (now - mostRecentInteraction) / real_of_int ms_per_day
      in max (1 / 2) (1 - daysSinceLastInteraction / 90))"

definition add_metric :: "CollaborationMetric \<Rightarrow> real \<Rightarrow> real" where
  "add_metric metric score =
     score + (real_of_int (interaction_count metric * weight_of (interaction_type metric))
              + real_of_int (total_minutes metric) / 10)"

definition calculateCollaborationScore :: "int \<Rightarrow> CollaborationMetric list \<Rightarrow> real" where
  "calculateCollaborationScore now metrics =
     (let score = fold add_metric metrics 0
      in if length metrics > 0
         then score * recencyMultiplier now (math_max (map last_interaction metrics))
         else score)"

text \<open>The query of \<^verbatim>\<open>rankPeers\<close>. The table is
  \<^verbatim>\<open>UNIQUE(employee_id, peer_id, interaction_type)\<close>, so every group of
  \<^verbatim>\<open>GROUP BY peer_id, interaction_type\<close> is one row and \<^verbatim>\<open>SUM\<close> and \<^verbatim>\<open>MAX\<close> return
  that row's own values. The query has no \<^verbatim>\<open>ORDER BY\<close>; SQLite answers a
  \<^verbatim>\<open>GROUP BY\<close> in ascending order of the grouping columns, texts in byte order.\<close>

definition metric_of :: "collaboration \<Rightarrow> CollaborationMetric" where
  "metric_of c = \<lparr> peer_id = c_peer_id c,
                   interaction_type = c_interaction_type c,
                   interaction_count = c_interaction_count c,
                   total_minutes = c_total_minutes c,
                   last_interaction = c_last_interaction c \<rparr>"

definition group_key :: "CollaborationMetric \<Rightarrow> nat \<times> string" where
  "group_key m = (peer_id m, Rep_type_name (interaction_type m))"

definition collaborations_of :: "db \<Rightarrow> nat \<Rightarrow> CollaborationMetric list" where
  "collaborations_of s employeeId =
     sort_key group_key
       (map metric_of (filter (\<lambda>c. c_employee_id c = employeeId) (collaborations s)))"

text \<open>\<^verbatim>\<open>peerMetrics\<close> is a JavaScript object keyed by peer id: here an association
  list in the order in which the keys were created. A metric of a known peer is
  pushed onto that peer's array; a new peer gets a new key.\<close>

fun push_metric ::
  "CollaborationMetric \<Rightarrow> (nat \<times> CollaborationMetric list) list
     \<Rightarrow> (nat \<times> CollaborationMetric list) list" where
  "push_metric collab [] = [(peer_id collab, [collab])]"
| "push_metric collab ((k, ms) # rest) =
     (if k = peer_id collab then (k, ms @ [collab]) # rest
      else (k, ms) # push_metric collab rest)"

definition group_by_peer ::
  "CollaborationMetric list \<Rightarrow> (nat \<times> CollaborationMetric list) list" where
  "group_by_peer rows = fold push_metric rows []"

text \<open>\<^verbatim>\<open>Object.entries\<close> lists the keys that are array indices (integers below
  \<open>2\<^sup>3\<^sup>2 - 1\<close>) first, in ascending numeric order, and then every other key in the
  order of its creation.\<close>

definition is_array_index :: "nat \<Rightarrow> bool" where
  "is_array_index k \<longleftrightarrow> k < 4294967295"

definition object_entries :: "(nat \<times> 'v) list \<Rightarrow> (nat \<times> 'v) list" where
  "object_entries kvs =
     sort_key fst (filter (\<lambda>kv. is_array_index (fst kv)) kvs)
     @ filter (\<lambda>kv. \<not> is_array_index (fst kv)) kvs"

text \<open>\<^verbatim>\<open>rankings.sort((a, b) => b.collaboration_score - a.collaboration_score)\<close>.
  \<^verbatim>\<open>Array.prototype.sort\<close> is stable: \<open>a\<close>, which comes first in the input, stays in
  front of every \<open>b\<close> for which the comparator is not positive.\<close>

fun insert_ranking :: "PeerRanking \<Rightarrow> PeerRanking list \<Rightarrow> PeerRanking list" where
  "insert_ranking a [] = [a]"
| "insert_ranking a (b # bs) =
     (if collaboration_score b - collaboration_score a \<le> 0 then a # b # bs
      else b # insert_ranking a bs)"

definition sort_rankings :: "PeerRanking list \<Rightarrow> PeerRanking list" where
  "sort_rankings rankings = foldr insert_ranking rankings []"

text \<open>\<^verbatim>\<open>rankings.forEach((ranking, index) => ranking.rank_position = index + 1)\<close>.\<close>

fun assign_positions :: "nat \<Rightarrow> PeerRanking list \<Rightarrow> PeerRanking list" where
  "assign_positions index [] = []"
| "assign_positions index (ranking # rest) =
     ranking\<lparr>rank_position := index + 1\<rparr> # assign_positions (Suc index) rest"

definition compute_rankings :: "int \<Rightarrow> CollaborationMetric list \<Rightarrow> PeerRanking list" where
  "compute_rankings now rows =
     (let peerMetrics = group_by_peer rows;
          rankings = map (\<lambda>(peerId, metrics).
                        \<lparr> rk_peer_id = peerId,
                          collaboration_score = calculateCollaborationScore now metrics,
                          rank_position = 0 \<rparr>) (object_entries peerMetrics)
      in assign_positions 0 (sort_rankings rankings))"

definition saveRankings :: "int \<Rightarrow> nat \<Rightarrow> PeerRanking list \<Rightarrow> db \<Rightarrow> db" where
  "saveRankings now employeeId rankings s =
     s\<lparr>peer_rankings :=
         filter (\<lambda>r. pr_employee_id r \<noteq> employeeId) (peer_rankings s)
         @ map (\<lambda>ranking. \<lparr> pr_employee_id = employeeId,
                             pr_peer_id = rk_peer_id ranking,
                             pr_collaboration_score = collaboration_score ranking,
                             pr_rank_position = rank_position ranking,
                             pr_calculated_at = now \<rparr>) rankings\<rparr>"

text \<open>\<^verbatim>\<open>rankPeers\<close> returns the rankings and stores them.\<close>

definition rankPeers :: "int \<Rightarrow> nat \<Rightarrow> db \<Rightarrow> PeerRanking list \<times> db" where
  "rankPeers now employeeId s =
     (let rankings = compute_rankings now (collaborations_of s employeeId)
      in (rankings, saveRankings now employeeId rankings s))"

definition rankAllPeers :: "int \<Rightarrow> db \<Rightarrow> db" where
  "rankAllPeers now s =
     fold (\<lambda>employee s'. snd (rankPeers now (e_id employee) s')) (employees s) s"

text \<open>\<^verbatim>\<open>LIMIT n\<close> of SQLite: a negative \<open>n\<close> is no limit.\<close>

definition sql_limit :: "int \<Rightarrow> 'a list \<Rightarrow> 'a list" where
  "sql_limit n rows = (if n < 0 then rows else take (nat n) rows)"

text \<open>\<^verbatim>\<open>getRankedPeers\<close>: the employee's ranking rows whose peer is an employee
  (the \<^verbatim>\<open>JOIN\<close> on the primary key of \<^verbatim>\<open>employees\<close>), by rank position.\<close>

definition getRankedPeers :: "db \<Rightarrow> nat \<Rightarrow> int \<Rightarrow> peer_ranking_row list" where
  "getRankedPeers s employeeId limit =
     sql_limit limit
       (sort_key pr_rank_position
          (filter (\<lambda>r. pr_employee_id r = employeeId
                       \<and> pr_peer_id r \<in> set (map e_id (employees s)))
             (peer_rankings s)))"

subsection \<open>collaboration-tracker.ts\<close>

text \<open>\<^verbatim>\<open>INSERT ... ON CONFLICT(employee_id, peer_id, interaction_type) DO UPDATE\<close>.\<close>

definition same_pair :: "nat \<Rightarrow> nat \<Rightarrow> type_name \<Rightarrow> collaboration \<Rightarrow> bool" where
  "same_pair employeeId peerId type c \<longleftrightarrow>
     c_employee_id c = employeeId \<and> c_peer_id c = peerId \<and> c_interaction_type c = type"

definition upsert_collaboration ::
  "int \<Rightarrow> nat \<Rightarrow> nat \<Rightarrow> type_name \<Rightarrow> int \<Rightarrow> int \<Rightarrow> collaboration list
     \<Rightarrow> collaboration list" where
  "upsert_collaboration now employeeId peerId type count minutes rows =
     (if list_ex (same_pair employeeId peerId type) rows
      then map (\<lambda>c. if same_pair employeeId peerId type c
                     then c\<lparr>c_interaction_count := c_interaction_count c + count,
                            c_total_minutes := c_total_minutes c + minutes,
                            c_last_interaction := now\<rparr>
                     else c) rows
      else rows @ [\<lparr> c_employee_id = employeeId, c_peer_id = peerId,
                      c_interaction_type = type, c_interaction_count = count,
                      c_total_minutes = minutes, c_last_interaction = now \<rparr>])"

text \<open>\<^verbatim>\<open>recordInteraction\<close> runs the statement for the pair and then for the
  reversed pair.\<close>

definition recordInteraction ::
  "int \<Rightarrow> nat \<Rightarrow> nat \<Rightarrow> type_name \<Rightarrow> int \<Rightarrow> int \<Rightarrow> db \<Rightarrow> db" where
  "recordInteraction now employeeId peerId type count minutes s =
     s\<lparr>collaborations :=
         upsert_collaboration now peerId employeeId type count minutes
           (upsert_collaboration now employeeId peerId type count minutes (collaborations s))\<rparr>"

subsection \<open>feedback-assigner.ts\<close>

datatype error = CycleNotFound | StorageError

record CreateFeedbackRequestDTO =
  requester_id :: nat
  provider_id :: nat
  cycle_id :: string
  request_type :: string
  due_date :: sql_value

text \<open>What \<^verbatim>\<open>createFeedbackRequest\<close> returns: \<^verbatim>\<open>{ id: result.lastID, ...requestData }\<close>.\<close>

type_synonym assignment = "nat \<times> CreateFeedbackRequestDTO"

text \<open>The storage layer can reject a statement, and \<^verbatim>\<open>run\<close> then rejects its
  promise. The parameter \<open>rejects\<close> of the operations below says for which requests
  the \<^verbatim>\<open>INSERT\<close> of \<^verbatim>\<open>createFeedbackRequest\<close> fails. The new row takes the column
  defaults of the table: status \<^verbatim>\<open>pending\<close>, no completion time, no reminders.\<close>

definition createFeedbackRequest ::
  "(CreateFeedbackRequestDTO \<Rightarrow> bool) \<Rightarrow> int \<Rightarrow> CreateFeedbackRequestDTO \<Rightarrow> db
     \<Rightarrow> error + assignment \<times> db" where
  "createFeedbackRequest rejects now requestData s =
     (if rejects requestData then Inl StorageError
      else let lastID = request_seq s + 1;
               row = \<lparr> fr_id = lastID,
                       fr_requester_id = requester_id requestData,
                       fr_provider_id = provider_id requestData,
                       fr_cycle_id = cycle_id requestData,
                       fr_request_type = (if request_type requestData = [] then ''peer''
                                          else request_type requestData),
                       fr_status = ''pending'',
                       fr_assigned_at = now,
                       fr_due_date = due_date requestData,
                       fr_completed_at = None,
                       fr_reminder_count = 0,
                       fr_last_reminder_at = None \<rparr>
           in Inr ((lastID, requestData),
                   s\<lparr>feedback_requests := feedback_requests s @ [row],
                     request_seq := lastID\<rparr>))"

text \<open>\<^verbatim>\<open>filterRecentFeedback\<close>. The query compares the stored \<^verbatim>\<open>submitted_at\<close>
  with the text \<^verbatim>\<open>thirtyDaysAgo.toISOString()\<close>, which is the parameter
  \<open>thirtyDaysAgo\<close> here and in the operations that call this one: the date thirty
  calendar days before the clock reading, in local time, written in UTC.\<close>

definition filterRecentFeedback ::
  "db \<Rightarrow> string \<Rightarrow> peer_ranking_row list \<Rightarrow> nat \<Rightarrow> peer_ranking_row list" where
  "filterRecentFeedback s thirtyDaysAgo peers requesterId =
     (let recentProviders = filter (\<lambda>r. rs_requester_id r = requesterId
                                        \<and> sql_greater (rs_submitted_at r) thirtyDaysAgo)
                              (feedback_responses s);
          recentProviderIds = set (map rs_provider_id recentProviders)
      in filter (\<lambda>peer. pr_peer_id peer \<notin> recentProviderIds) peers)"

definition checkExistingAssignment :: "db \<Rightarrow> nat \<Rightarrow> nat \<Rightarrow> string \<Rightarrow> bool" where
  "checkExistingAssignment s requesterId providerId cycleId =
     list_ex (\<lambda>r. fr_requester_id r = requesterId \<and> fr_provider_id r = providerId
                  \<and> fr_cycle_id r = cycleId) (feedback_requests s)"

definition getCycle :: "db \<Rightarrow> string \<Rightarrow> feedback_cycle option" where
  "getCycle s cycleId = find (\<lambda>c. fc_id c = cycleId) (feedback_cycles s)"

text \<open>\<^verbatim>\<open>xs.slice(0, end)\<close>: a negative \<open>end\<close> counts from the end of the array.\<close>

definition array_slice0 :: "int \<Rightarrow> 'a list \<Rightarrow> 'a list" where
  "array_slice0 end xs =
     (if end < 0 then take (nat (int (length xs) + end)) xs else take (nat end) xs)"

text \<open>The loops of \<^verbatim>\<open>assignFeedbackRequests\<close> carry the database and the array
  \<^verbatim>\<open>assignments\<close>. No statement of the function is inside a \<^verbatim>\<open>try\<close>: a rejected
  promise leaves every enclosing loop, and what was written before stays written.
  An outcome is either the error with the database as it was left, or the progress
  made.\<close>

type_synonym progress = "db \<times> assignment list"
type_synonym outcome = "error \<times> db + progress"

fun for_each :: "('a \<Rightarrow> progress \<Rightarrow> outcome) \<Rightarrow> 'a list \<Rightarrow> progress \<Rightarrow> outcome" where
  "for_each body [] p = Inr p"
| "for_each body (x # xs) p =
     (case body x p of Inl failure \<Rightarrow> Inl failure | Inr p' \<Rightarrow> for_each body xs p')"

text \<open>The pattern that all three creation paths share:
  \<^verbatim>\<open>if (!(await this.checkExistingAssignment(...))) assignments.push(await this.createFeedbackRequest(...))\<close>.\<close>

definition create_unless_exists ::
  "(CreateFeedbackRequestDTO \<Rightarrow> bool) \<Rightarrow> int \<Rightarrow> CreateFeedbackRequestDTO
     \<Rightarrow> progress \<Rightarrow> outcome" where
  "create_unless_exists rejects now requestData p =
     (let s = fst p; assignments = snd p
      in if checkExistingAssignment s (requester_id requestData) (provider_id requestData)
              (cycle_id requestData)
         then Inr (s, assignments)
         else (case createFeedbackRequest rejects now requestData s of
                 Inl err \<Rightarrow> Inl (err, s)
               | Inr (a, s') \<Rightarrow> Inr (s', assignments @ [a])))"

text \<open>\<^verbatim>\<open>if (employee.manager_id)\<close>: \<^verbatim>\<open>NULL\<close> and 0 are falsy.\<close>

definition truthy_id :: "nat option \<Rightarrow> bool" where
  "truthy_id v = (case v of None \<Rightarrow> False | Some n \<Rightarrow> n \<noteq> 0)"

definition direct_reports :: "db \<Rightarrow> nat \<Rightarrow> nat list" where
  "direct_reports s managerId =
     map e_id (filter (\<lambda>r. e_manager_id r = Some managerId) (employees s))"

text \<open>The body of the loop over the employees.\<close>

definition assign_employee ::
  "(CreateFeedbackRequestDTO \<Rightarrow> bool) \<Rightarrow> int \<Rightarrow> string \<Rightarrow> string \<Rightarrow> int \<Rightarrow> bool
     \<Rightarrow> feedback_cycle \<Rightarrow> employee \<Rightarrow> progress \<Rightarrow> outcome" where
  "assign_employee rejects now thirtyDaysAgo cycleId peersPerEmployee include360 cycle employee p =
     (let rankedPeers = getRankedPeers (fst p) (e_id employee) (peersPerEmployee + 10);
          availablePeers = filterRecentFeedback (fst p) thirtyDaysAgo rankedPeers (e_id employee);
          selectedPeers = array_slice0 peersPerEmployee availablePeers
      in case for_each (\<lambda>peer. create_unless_exists rejects now
                          \<lparr> requester_id = e_id employee, provider_id = pr_peer_id peer,
                            cycle_id = cycleId, request_type = ''peer'',
                            due_date = fc_end_date cycle \<rparr>) selectedPeers p of
           Inl failure \<Rightarrow> Inl failure
         | Inr p1 \<Rightarrow>
             if include360 then
               (case (if truthy_id (e_manager_id employee)
                      then create_unless_exists rejects now
                             \<lparr> requester_id = e_id employee,
                               provider_id = the (e_manager_id employee),
                               cycle_id = cycleId, request_type = ''manager'',
                               due_date = fc_end_date cycle \<rparr> p1
                      else Inr p1) of
                  Inl failure \<Rightarrow> Inl failure
                | Inr p2 \<Rightarrow>
                    if e_is_manager employee then
                      for_each (\<lambda>report. create_unless_exists rejects now
                                  \<lparr> requester_id = e_id employee, provider_id = report,
                                    cycle_id = cycleId, request_type = ''upward'',
                                    due_date = fc_end_date cycle \<rparr>)
                        (direct_reports (fst p2) (e_id employee)) p2
                    else Inr p2)
             else Inr p1)"

definition assignFeedbackRequests ::
  "(CreateFeedbackRequestDTO \<Rightarrow> bool) \<Rightarrow> int \<Rightarrow> string \<Rightarrow> string \<Rightarrow> int \<Rightarrow> bool \<Rightarrow> db
     \<Rightarrow> outcome" where
  "assignFeedbackRequests rejects now thirtyDaysAgo cycleId peersPerEmployee include360 s =
     (let s1 = rankAllPeers now s
      in case getCycle s1 cycleId of
           None \<Rightarrow> Inl (CycleNotFound, s1)
         | Some cycle \<Rightarrow>
             for_each (assign_employee rejects now thirtyDaysAgo cycleId peersPerEmployee include360 cycle)
               (employees s1) (s1, []))"

text \<open>The database an invocation leaves behind, whichever way it ends.\<close>

definition db_after :: "outcome \<Rightarrow> db" where
  "db_after out = (case out of Inl (err, s) \<Rightarrow> s | Inr (s, assignments) \<Rightarrow> s)"

text \<open>\<^verbatim>\<open>updateRequestStatus\<close>: one \<^verbatim>\<open>UPDATE ... WHERE id = ?\<close>.\<close>

definition updateRequestStatus :: "int \<Rightarrow> nat \<Rightarrow> string \<Rightarrow> db \<Rightarrow> db" where
  "updateRequestStatus now requestId status s =
     s\<lparr>feedback_requests :=
         map (\<lambda>r. if fr_id r = requestId
                  then r\<lparr>fr_status := status,
                         fr_completed_at := (if status = ''completed'' then Some now
                                             else fr_completed_at r)\<rparr>
                  else r) (feedback_requests s)\<rparr>"

text \<open>The numbers of \<^verbatim>\<open>getCycleStats\<close> are computed by SQLite, whose \<^verbatim>\<open>REAL\<close> is
  the IEEE 754 binary64 format: every operation returns the double nearest to the
  exact result, the even one of two nearest. A double is the real number it denotes.
  \<open>ulp_exponent x\<close> is the exponent of the spacing of the doubles around \<open>x\<close>: 52
  below the exponent of \<open>x\<close>, and \<open>-1074\<close> for the subnormal numbers. The numbers of
  this query are at most \<open>100 * 2\<^sup>6\<^sup>3\<close>, so there is no overflow to model.\<close>

definition pow2 :: "int \<Rightarrow> real" where
  "pow2 e = (if 0 \<le> e then 2 ^ nat e else 1 / 2 ^ nat (- e))"

definition round_half_even :: "real \<Rightarrow> int" where
  "round_half_even y =
     (let n = \<lfloor>y\<rfloor>
      in if y - of_int n < 1 / 2 then n
         else if 1 / 2 < y - of_int n then n + 1
         else if even n then n else n + 1)"

definition ulp_exponent :: "real \<Rightarrow> int" where
  "ulp_exponent x = max (bitlen \<lfloor>\<bar>x\<bar> * 2 ^ 1074\<rfloor> - 1127) (- 1074)"

definition to_double :: "real \<Rightarrow> real" where
  "to_double x = of_int (round_half_even (x / pow2 (ulp_exponent x))) * pow2 (ulp_exponent x)"

text \<open>SQL aggregates and arithmetic, with \<^verbatim>\<open>NULL\<close> as \<open>None\<close>: \<^verbatim>\<open>SUM\<close> of no rows is
  \<^verbatim>\<open>NULL\<close>, an operator with a \<^verbatim>\<open>NULL\<close> operand is \<^verbatim>\<open>NULL\<close>, and a division by zero
  is \<^verbatim>\<open>NULL\<close>. \<^verbatim>\<open>CAST(n AS FLOAT)\<close> is the double of an integer, and an integer
  operand of an operator whose other operand is \<^verbatim>\<open>REAL\<close> is cast in the same way.\<close>

definition sql_sum :: "int list \<Rightarrow> int option" where
  "sql_sum xs = (if xs = [] then None else Some (sum_list xs))"

definition cast_float :: "int option \<Rightarrow> real option" where
  "cast_float v = map_option (\<lambda>n. to_double (real_of_int n)) v"

definition sql_div :: "real option \<Rightarrow> real option \<Rightarrow> real option" where
  "sql_div a b = (case (a, b) of
      (Some x, Some y) \<Rightarrow> (if y = 0 then None else Some (to_double (x / y)))
    | _ \<Rightarrow> None)"

definition sql_mul :: "real option \<Rightarrow> real option \<Rightarrow> real option" where
  "sql_mul a b = (case (a, b) of (Some x, Some y) \<Rightarrow> Some (to_double (x * y)) | _ \<Rightarrow> None)"

text \<open>\<^verbatim>\<open>ROUND(r, 2)\<close>. SQLite prints the double with two decimals, rounding the
  decimal expansion of the double half away from zero, and reads the text back as a
  double; a double beyond \<open>2\<^sup>5\<^sup>2\<close> is returned as it is.\<close>

definition round2 :: "real \<Rightarrow> real" where
  "round2 x = (if 0 \<le> x then real_of_int \<lfloor>x * 100 + 1 / 2\<rfloor> / 100
               else - (real_of_int \<lfloor>- x * 100 + 1 / 2\<rfloor> / 100))"

definition sql_round2 :: "real \<Rightarrow> real" where
  "sql_round2 r = (if r < - 4503599627370496 \<or> 4503599627370496 < r then r
                   else to_double (round2 r))"

definition count_status :: "string \<Rightarrow> feedback_request list \<Rightarrow> int option" where
  "count_status status rows = sql_sum (map (\<lambda>r. if fr_status r = status then 1 else 0) rows)"

record cycle_stats =
  total_requests :: int
  completed_count :: "int option"
  pending_count :: "int option"
  overdue_count :: "int option"
  completion_rate :: "real option"

definition getCycleStats :: "db \<Rightarrow> string \<Rightarrow> cycle_stats" where
  "getCycleStats s cycleId =
     (let rows = filter (\<lambda>r. fr_cycle_id r = cycleId) (feedback_requests s)
      in \<lparr> total_requests = int (length rows),
           completed_count = count_status ''completed'' rows,
           pending_count = count_status ''pending'' rows,
           overdue_count = count_status ''overdue'' rows,
           completion_rate =
             map_option sql_round2
               (sql_mul (sql_div (cast_float (count_status ''completed'' rows))
                                 (cast_float (Some (int (length rows)))))
                        (Some 100)) \<rparr>)"

subsection \<open>autoCloseCycles\<close>

text \<open>\<^verbatim>\<open>stats[0].completed / stats[0].total\<close> in JavaScript. A cycle without requests
  has \<^verbatim>\<open>completed = null\<close> and \<^verbatim>\<open>total = 0\<close>; the quotient is \<^verbatim>\<open>NaN\<close>, here \<open>None\<close>,
  and every comparison with \<^verbatim>\<open>NaN\<close> is false.\<close>

definition completionRate :: "db \<Rightarrow> string \<Rightarrow> real option" where
  "completionRate s cycleId =
     (let rows = filter (\<lambda>r. fr_cycle_id r = cycleId) (feedback_requests s)
      in case count_status ''completed'' rows of
           None \<Rightarrow> None
         | Some completed \<Rightarrow> Some (real_of_int completed / real (length rows)))"

text \<open>\<^verbatim>\<open>Math.ceil((now.getTime() - new Date(cycle.end_date).getTime()) / (1000 * 60 * 60 * 24))\<close>.
  What \<^verbatim>\<open>new Date(v).getTime()\<close> returns for a stored value \<open>v\<close> is the parameter
  \<open>parseDate\<close> of the operation: the time value, or \<open>None\<close> for an invalid date,
  whose time is \<^verbatim>\<open>NaN\<close>. The days are then \<^verbatim>\<open>NaN\<close> as well.\<close>

definition daysPastEnd :: "(sql_value \<Rightarrow> int option) \<Rightarrow> js_date \<Rightarrow> feedback_cycle \<Rightarrow> int option" where
  "daysPastEnd parseDate now cycle =
     (case parseDate (fc_end_date cycle) of
        None \<Rightarrow> None
      | Some t \<Rightarrow> Some \<lceil>real_of_int (getTime now - t) / real_of_int ms_per_day\<rceil>)"

definition should_close ::
  "(sql_value \<Rightarrow> int option) \<Rightarrow> js_date \<Rightarrow> db \<Rightarrow> feedback_cycle \<Rightarrow> bool" where
  "should_close parseDate now s cycle \<longleftrightarrow>
     (case completionRate s (fc_id cycle) of None \<Rightarrow> False | Some rate \<Rightarrow> rate \<ge> 9 / 10)
     \<or> (case daysPastEnd parseDate now cycle of None \<Rightarrow> False | Some days \<Rightarrow> days \<ge> 7)"

definition set_cycle_status :: "string \<Rightarrow> string \<Rightarrow> db \<Rightarrow> db" where
  "set_cycle_status status cycleId s =
     s\<lparr>feedback_cycles :=
         map (\<lambda>c. if fc_id c = cycleId then c\<lparr>fc_status := status\<rparr> else c)
           (feedback_cycles s)\<rparr>"

text \<open>\<^verbatim>\<open>autoCloseCycles\<close> reads the active cycles with
  \<^verbatim>\<open>end_date < now.toISOString()\<close> once and then visits them in turn. Its \<^verbatim>\<open>try\<close>
  block logs an error and returns; the storage layer does not fail in this model of
  it.\<close>

definition autoCloseCycles :: "(sql_value \<Rightarrow> int option) \<Rightarrow> js_date \<Rightarrow> db \<Rightarrow> db" where
  "autoCloseCycles parseDate now s =
     (let endedCycles = filter (\<lambda>c. fc_status c = ''active''
                                   \<and> sql_less (fc_end_date c) (toISOString now))
                          (feedback_cycles s)
      in fold (\<lambda>cycle s'. if should_close parseDate now s' cycle
                           then set_cycle_status ''completed'' (fc_id cycle) s' else s')
           endedCycles s)"

subsection \<open>createCycle, and the operations that write\<close>







section \<open>The properties\<close>






text \<open>The uniqueness invariant of \<^verbatim>\<open>feedback_requests\<close>: no two rows with the same
  requester, provider and cycle.\<close>

definition request_key :: "feedback_request \<Rightarrow> nat \<times> nat \<times> string" where
  "request_key r = (fr_requester_id r, fr_provider_id r, fr_cycle_id r)"

definition unique_requests :: "db \<Rightarrow> bool" where
  "unique_requests s \<longleftrightarrow> distinct (map request_key (feedback_requests s))"

text \<open>The requests of a cycle, how many of them have a given status, and a
  completion rate of 90 percent or more, stated in natural numbers.\<close>

definition requests_of_cycle :: "db \<Rightarrow> string \<Rightarrow> feedback_request list" where
  "requests_of_cycle s cycleId = filter (\<lambda>r. fr_cycle_id r = cycleId) (feedback_requests s)"

definition count_with_status :: "string \<Rightarrow> feedback_request list \<Rightarrow> nat" where
  "count_with_status status rows = length (filter (\<lambda>r. fr_status r = status) rows)"


section \<open>Notions of the proofs\<close>

text \<open>Two databases that differ at most in their requests.\<close>

definition same_tables :: "db \<Rightarrow> db \<Rightarrow> bool" where
  "same_tables s t \<longleftrightarrow>
     employees t = employees s \<and> collaborations t = collaborations s
   \<and> peer_rankings t = peer_rankings s \<and> feedback_cycles t = feedback_cycles s
   \<and> feedback_responses t = feedback_responses s"

definition dto_key :: "CreateFeedbackRequestDTO \<Rightarrow> nat \<times> nat \<times> string" where
  "dto_key d = (requester_id d, provider_id d, cycle_id d)"

abbreviation keys :: "progress \<Rightarrow> (nat \<times> nat \<times> string) set" where
  "keys p \<equiv> set (map request_key (feedback_requests (fst p)))"

text \<open>The requests that the body of the loop tries to create for one employee, in
  the order in which it tries them: the selected peers, the manager, the direct
  reports.\<close>

definition selected_peers :: "db \<Rightarrow> string \<Rightarrow> int \<Rightarrow> nat \<Rightarrow> peer_ranking_row list" where
  "selected_peers s thirtyDaysAgo peersPerEmployee employeeId =
     array_slice0 peersPerEmployee
       (filterRecentFeedback s thirtyDaysAgo
          (getRankedPeers s employeeId (peersPerEmployee + 10)) employeeId)"

definition targets ::
  "string \<Rightarrow> string \<Rightarrow> int \<Rightarrow> bool \<Rightarrow> feedback_cycle \<Rightarrow> db \<Rightarrow> employee
     \<Rightarrow> CreateFeedbackRequestDTO list" where
  "targets thirtyDaysAgo cycleId peersPerEmployee include360 cycle s employee =
     map (\<lambda>peer. \<lparr> requester_id = e_id employee, provider_id = pr_peer_id peer,
                    cycle_id = cycleId, request_type = ''peer'',
                    due_date = fc_end_date cycle \<rparr>)
       (selected_peers s thirtyDaysAgo peersPerEmployee (e_id employee))
     @ (if include360 \<and> truthy_id (e_manager_id employee)
        then [\<lparr> requester_id = e_id employee, provider_id = the (e_manager_id employee),
                 cycle_id = cycleId, request_type = ''manager'',
                 due_date = fc_end_date cycle \<rparr>]
        else [])
     @ (if include360 \<and> e_is_manager employee
        then map (\<lambda>report. \<lparr> requester_id = e_id employee, provider_id = report,
                              cycle_id = cycleId, request_type = ''upward'',
                              due_date = fc_end_date cycle \<rparr>)
               (direct_reports s (e_id employee))
        else [])"

text \<open>The rows that \<^verbatim>\<open>saveRankings\<close> inserts for one employee.\<close>

definition fresh_rows :: "int \<Rightarrow> db \<Rightarrow> nat \<Rightarrow> peer_ranking_row list" where
  "fresh_rows now s employeeId =
     map (\<lambda>ranking. \<lparr> pr_employee_id = employeeId,
                             pr_peer_id = rk_peer_id ranking,
                             pr_collaboration_score = collaboration_score ranking,
                             pr_rank_position = rank_position ranking,
                             pr_calculated_at = now \<rparr>)
       (compute_rankings now (collaborations_of s employeeId))"




section \<open>Example databases\<close>

text \<open>The text of \<^verbatim>\<open>toISOString\<close> for the time 1000, the end of the example cycles,
  and for the time thirty days before the time 0.\<close>

definition end_text :: string where
  "end_text = ''1970-01-01T00:00:01.000Z''"

definition thirty_days_before_0 :: string where
  "thirty_days_before_0 = ''1969-12-02T00:00:00.000Z''"

text \<open>A manager (1) and a report (2) who have chatted, and one cycle.\<close>

definition demo_db :: db where
  "demo_db = \<lparr> employees = [\<lparr>e_id = 1, e_manager_id = None, e_is_manager = True\<rparr>,
                             \<lparr>e_id = 2, e_manager_id = Some 1, e_is_manager = False\<rparr>],
      collaborations = [
        \<lparr>c_employee_id = 1, c_peer_id = 2, c_interaction_type = chat_type,
         c_interaction_count = 4, c_total_minutes = 0, c_last_interaction = 0\<rparr>,
        \<lparr>c_employee_id = 2, c_peer_id = 1, c_interaction_type = chat_type,
         c_interaction_count = 4, c_total_minutes = 0, c_last_interaction = 0\<rparr>],
      peer_rankings = [],
      feedback_cycles = [\<lparr>fc_id = ''c1'', fc_end_date = Text end_text, fc_status = ''active''\<rparr>],
      feedback_requests = [], feedback_responses = [], request_seq = 0 \<rparr>"




text \<open>One employee who is their own manager, and one cycle.\<close>

definition solo_db :: db where
  "solo_db = \<lparr> employees = [\<lparr>e_id = 1, e_manager_id = Some 1, e_is_manager = True\<rparr>],
      collaborations = [], peer_rankings = [],
      feedback_cycles = [\<lparr>fc_id = ''c1'', fc_end_date = Text end_text, fc_status = ''active''\<rparr>],
      feedback_requests = [], feedback_responses = [], request_seq = 0 \<rparr>"

text \<open>Requests of cycle \<^verbatim>\<open>c1\<close> with a given id and status.\<close>

definition request_in :: "nat \<Rightarrow> string \<Rightarrow> feedback_request" where
  "request_in n status =
     \<lparr> fr_id = n, fr_requester_id = 1, fr_provider_id = n + 1, fr_cycle_id = ''c1'',
       fr_request_type = ''peer'', fr_status = status, fr_assigned_at = 0,
       fr_due_date = Text end_text, fr_completed_at = None, fr_reminder_count = 0,
       fr_last_reminder_at = None \<rparr>"

text \<open>Ten requests, seven of them completed.\<close>

definition stats_db :: db where
  "stats_db = \<lparr> employees = [], collaborations = [], peer_rankings = [],
      feedback_cycles = [\<lparr>fc_id = ''c1'', fc_end_date = Text end_text, fc_status = ''active''\<rparr>],
      feedback_requests =
        [request_in 1 ''completed'', request_in 2 ''completed'', request_in 3 ''completed'',
         request_in 4 ''completed'', request_in 5 ''completed'', request_in 6 ''completed'',
         request_in 7 ''completed'', request_in 8 ''pending'', request_in 9 ''pending'',
         request_in 10 ''overdue''],
      feedback_responses = [], request_seq = 10 \<rparr>"

text \<open>A hundred and sixty requests, the first twenty-three of them completed.\<close>

definition tie_db :: db where
  "tie_db = \<lparr> employees = [], collaborations = [], peer_rankings = [],
      feedback_cycles = [\<lparr>fc_id = ''c1'', fc_end_date = Text end_text, fc_status = ''active''\<rparr>],
      feedback_requests =
        map (\<lambda>n. request_in n (if n \<le> 23 then ''completed'' else ''pending'')) [1..<161],
      feedback_responses = [], request_seq = 160 \<rparr>"

text \<open>A cycle that ends at time 1000 and whose only request is completed.\<close>

definition early_db :: db where
  "early_db = \<lparr> employees = [], collaborations = [], peer_rankings = [],
      feedback_cycles = [\<lparr>fc_id = ''c1'', fc_end_date = Text end_text, fc_status = ''active''\<rparr>],
      feedback_requests = [request_in 1 ''completed''],
      feedback_responses = [], request_seq = 1 \<rparr>"


section \<open>Lemmas\<close>

subsection \<open>Scores and grouping\<close>












subsection \<open>Sorting and rank positions\<close>





lemma length_insert_ranking: "length (insert_ranking a bs) = Suc (length bs)"
  by (induction bs) auto












subsection \<open>Rankings of one employee\<close>










lemmas rank_defs =
  rankPeers_def compute_rankings_def collaborations_of_def group_key_def metric_of_def
  group_by_peer_def object_entries_def is_array_index_def sort_rankings_def
  calculateCollaborationScore_def add_metric_def weight_of_def js_weight_def WEIGHTS_def
  inherited_names_def chat_type.rep_eq meeting_type.rep_eq task_type.rep_eq
  file_type.rep_eq recencyMultiplier_def ms_per_day_def Let_def










subsection \<open>One guarded creation\<close>

lemma same_tables_refl: "same_tables s s"
  by (simp add: same_tables_def)

lemma same_tables_trans: "same_tables s t \<Longrightarrow> same_tables t u \<Longrightarrow> same_tables s u"
  by (simp add: same_tables_def)

lemma check_iff_key:
  "checkExistingAssignment s a b c \<longleftrightarrow> (a, b, c) \<in> set (map request_key (feedback_requests s))"
  by (auto simp: checkExistingAssignment_def list_ex_iff request_key_def image_iff)

lemma for_each_append:
  "for_each body (xs @ ys) p =
     (case for_each body xs p of Inl failure \<Rightarrow> Inl failure | Inr p' \<Rightarrow> for_each body ys p')"
  by (induction xs arbitrary: p) (auto split: sum.splits)

lemma for_each_map: "for_each (\<lambda>x. body (f x)) xs p = for_each body (map f xs) p"
  by (induction xs arbitrary: p) (auto split: sum.splits)

lemma for_each_invariant:
  assumes "\<And>x p p'. x \<in> set xs \<Longrightarrow> I p \<Longrightarrow> body x p = Inr p' \<Longrightarrow> I p'"
      and "\<And>x p failure. x \<in> set xs \<Longrightarrow> I p \<Longrightarrow> body x p = Inl failure \<Longrightarrow> J failure"
      and "I p"
  shows "case for_each body xs p of Inl failure \<Rightarrow> J failure | Inr p' \<Rightarrow> I p'"
  using assms
proof (induction xs arbitrary: p)
  case Nil then show ?case by simp
next
  case (Cons x xs)
  show ?case
  proof (cases "body x p")
    case (Inl failure)
    then show ?thesis using Cons.prems(2)[of x p failure] Cons.prems(3) by simp
  next
    case (Inr p')
    have step: "I p'" using Cons.prems(1)[of x p p'] Cons.prems(3) Inr by simp
    have "case for_each body xs p' of Inl failure \<Rightarrow> J failure | Inr p'' \<Rightarrow> I p''"
    proof (rule Cons.IH)
      show "\<And>y q q'. y \<in> set xs \<Longrightarrow> I q \<Longrightarrow> body y q = Inr q' \<Longrightarrow> I q'"
        using Cons.prems(1) by (meson list.set_intros(2))
      show "\<And>y q failure. y \<in> set xs \<Longrightarrow> I q \<Longrightarrow> body y q = Inl failure \<Longrightarrow> J failure"
        using Cons.prems(2) by (meson list.set_intros(2))
      show "I p'" by (rule step)
    qed
    then show ?thesis using Inr by simp
  qed
qed

lemma create_unless_exists_cases:
  "create_unless_exists rejects now d p =
     (if dto_key d \<in> set (map request_key (feedback_requests (fst p))) then Inr p
      else if rejects d then Inl (StorageError, fst p)
      else Inr (snd (projr (createFeedbackRequest rejects now d (fst p))),
                snd p @ [fst (projr (createFeedbackRequest rejects now d (fst p)))]))"
  by (cases p) (simp add: create_unless_exists_def check_iff_key dto_key_def createFeedbackRequest_def Let_def)

lemma create_row:
  "\<not> rejects d \<Longrightarrow>
   \<exists>row. feedback_requests (snd (projr (createFeedbackRequest rejects now d s))) = feedback_requests s @ [row]
        \<and> request_key row = dto_key d
        \<and> same_tables s (snd (projr (createFeedbackRequest rejects now d s)))"
  by (simp add: createFeedbackRequest_def Let_def request_key_def dto_key_def same_tables_def)

lemma create_unless_exists_Inr:
  assumes "create_unless_exists rejects now d p = Inr p'"
  shows "same_tables (fst p) (fst p')"
    and "dto_key d \<in> set (map request_key (feedback_requests (fst p')))"
    and "set (map request_key (feedback_requests (fst p))) \<subseteq> set (map request_key (feedback_requests (fst p')))"
    and "unique_requests (fst p) \<Longrightarrow> unique_requests (fst p')"
proof -
  show "same_tables (fst p) (fst p')"
    using assms create_row[of rejects d now "fst p"]
    by (auto simp: create_unless_exists_cases same_tables_refl split: if_splits)
  show "dto_key d \<in> set (map request_key (feedback_requests (fst p')))"
    using assms create_row[of rejects d now "fst p"]
    by (auto simp: create_unless_exists_cases split: if_splits)
  show "set (map request_key (feedback_requests (fst p))) \<subseteq> set (map request_key (feedback_requests (fst p')))"
    using assms create_row[of rejects d now "fst p"]
    by (auto simp: create_unless_exists_cases split: if_splits)
  show "unique_requests (fst p) \<Longrightarrow> unique_requests (fst p')"
    using assms create_row[of rejects d now "fst p"]
    by (auto simp: create_unless_exists_cases unique_requests_def split: if_splits)
qed

lemma create_unless_exists_Inl:
  "create_unless_exists rejects now d p = Inl failure \<Longrightarrow> failure = (StorageError, fst p)"
  by (auto simp: create_unless_exists_cases split: if_splits)

lemma create_unless_exists_present:
  "dto_key d \<in> set (map request_key (feedback_requests (fst p))) \<Longrightarrow>
     create_unless_exists rejects now d p = Inr p"
  by (simp add: create_unless_exists_cases)

lemma create_unless_exists_no_fault:
  "\<not> rejects d \<Longrightarrow> \<exists>p'. create_unless_exists rejects now d p = Inr p'"
  by (simp add: create_unless_exists_cases)

subsection \<open>The creations of one employee\<close>

lemma create_all_Inr:
  "for_each (create_unless_exists rejects now) ds p = Inr p' \<Longrightarrow>
     same_tables (fst p) (fst p') \<and> keys p \<subseteq> keys p' \<and> dto_key ` set ds \<subseteq> keys p'
     \<and> (unique_requests (fst p) \<longrightarrow> unique_requests (fst p'))"
proof (induction ds arbitrary: p)
  case Nil then show ?case by (simp add: same_tables_refl)
next
  case (Cons d ds)
  from Cons.prems obtain q where q: "create_unless_exists rejects now d p = Inr q"
      and rest: "for_each (create_unless_exists rejects now) ds q = Inr p'"
    by (auto split: sum.splits)
  note a = create_unless_exists_Inr[OF q]
  note b = Cons.IH[OF rest]
  have "dto_key d \<in> keys p'" using a(2) b by blast
  moreover have "same_tables (fst p) (fst p')" using a(1) b same_tables_trans by blast
  moreover have "keys p \<subseteq> keys p'" using a(3) b by blast
  ultimately show ?case using a(4) b by auto
qed

lemma create_all_Inl:
  "for_each (create_unless_exists rejects now) ds p = Inl failure \<Longrightarrow>
     fst failure = StorageError \<and> same_tables (fst p) (snd failure)
     \<and> (unique_requests (fst p) \<longrightarrow> unique_requests (snd failure))"
proof (induction ds arbitrary: p)
  case Nil then show ?case by simp
next
  case (Cons d ds)
  show ?case
  proof (cases "create_unless_exists rejects now d p")
    case (Inl f)
    then have "failure = f" using Cons.prems by simp
    then show ?thesis using create_unless_exists_Inl[OF Inl] by (simp add: same_tables_refl)
  next
    case (Inr q)
    then have rest: "for_each (create_unless_exists rejects now) ds q = Inl failure"
      using Cons.prems by simp
    note a = create_unless_exists_Inr[OF Inr]
    note b = Cons.IH[OF rest]
    show ?thesis using a(1) a(4) b same_tables_trans by blast
  qed
qed

lemma create_all_present:
  "dto_key ` set ds \<subseteq> keys p \<Longrightarrow> for_each (create_unless_exists rejects now) ds p = Inr p"
  by (induction ds) (simp_all add: create_unless_exists_present)

lemma create_all_no_fault:
  "\<forall>d\<in>set ds. \<not> rejects d \<Longrightarrow> \<exists>p'. for_each (create_unless_exists rejects now) ds p = Inr p'"
proof (induction ds arbitrary: p)
  case Nil then show ?case by simp
next
  case (Cons d ds)
  then obtain q where "create_unless_exists rejects now d p = Inr q"
    using create_unless_exists_no_fault[of rejects d now p] by auto
  then show ?case using Cons by simp
qed

lemma direct_reports_same: "same_tables s t \<Longrightarrow> direct_reports t e = direct_reports s e"
  by (simp add: direct_reports_def same_tables_def)

lemma targets_same: "same_tables s t \<Longrightarrow>
  targets thirtyDaysAgo cycleId n inc cycle t e = targets thirtyDaysAgo cycleId n inc cycle s e"
  by (simp add: targets_def selected_peers_def getRankedPeers_def filterRecentFeedback_def
       direct_reports_def same_tables_def)

lemma assign_employee_flat:
  "assign_employee rejects now thirtyDaysAgo cycleId n inc cycle e p =
     for_each (create_unless_exists rejects now) (targets thirtyDaysAgo cycleId n inc cycle (fst p) e) p"
proof -
  let ?cue = "create_unless_exists rejects now"
  let ?mk = "\<lambda>peer. \<lparr> requester_id = e_id e, provider_id = pr_peer_id peer,
                    cycle_id = cycleId, request_type = ''peer'',
                    due_date = fc_end_date cycle \<rparr>"
  note fm = for_each_map[symmetric]
  show ?thesis
  proof (cases "for_each (\<lambda>peer. ?cue (?mk peer)) (selected_peers (fst p) thirtyDaysAgo n (e_id e)) p")
    case (Inl failure)
    then show ?thesis
      by (simp add: assign_employee_def targets_def for_each_append fm selected_peers_def Let_def)
  next
    case (Inr p1)
    have "for_each ?cue (map ?mk (selected_peers (fst p) thirtyDaysAgo n (e_id e))) p = Inr p1"
      using Inr by (simp only: for_each_map[where body = ?cue and f = ?mk])
    then have t1: "same_tables (fst p) (fst p1)" using create_all_Inr by blast
    show ?thesis
    proof (cases "inc \<and> truthy_id (e_manager_id e)")
      case False
      then show ?thesis using Inr direct_reports_same[OF t1]
        by (auto simp: assign_employee_def targets_def for_each_append fm selected_peers_def Let_def)
    next
      case True
      let ?m = "\<lparr> requester_id = e_id e, provider_id = the (e_manager_id e),
                 cycle_id = cycleId, request_type = ''manager'',
                 due_date = fc_end_date cycle \<rparr>"
      show ?thesis
      proof (cases "?cue ?m p1")
        case (Inl failure)
        then show ?thesis using Inr True
          by (simp add: assign_employee_def targets_def for_each_append fm selected_peers_def Let_def)
      next
        case p2: (Inr p2)
        have "same_tables (fst p1) (fst p2)" using create_unless_exists_Inr(1)[OF p2] .
        then have "same_tables (fst p) (fst p2)" using t1 same_tables_trans by blast
        then show ?thesis using Inr True p2 direct_reports_same[of "fst p" "fst p2"]
          by (simp add: assign_employee_def targets_def for_each_append fm selected_peers_def Let_def)
      qed
    qed
  qed
qed

subsection \<open>The loop over the employees, and ranking all peers\<close>

lemma assign_all_Inr:
  "for_each (assign_employee rejects now thirtyDaysAgo cycleId n inc cycle) es p = Inr p' \<Longrightarrow>
     same_tables (fst p) (fst p') \<and> keys p \<subseteq> keys p'
     \<and> (\<forall>e\<in>set es. dto_key ` set (targets thirtyDaysAgo cycleId n inc cycle (fst p) e) \<subseteq> keys p')"
proof (induction es arbitrary: p)
  case Nil then show ?case by (simp add: same_tables_refl)
next
  case (Cons e es)
  from Cons.prems obtain q where q: "assign_employee rejects now thirtyDaysAgo cycleId n inc cycle e p = Inr q"
      and rest: "for_each (assign_employee rejects now thirtyDaysAgo cycleId n inc cycle) es q = Inr p'"
    by (auto split: sum.splits)
  from q have a: "same_tables (fst p) (fst q)" "keys p \<subseteq> keys q"
      "dto_key ` set (targets thirtyDaysAgo cycleId n inc cycle (fst p) e) \<subseteq> keys q"
    using create_all_Inr[of rejects now "targets thirtyDaysAgo cycleId n inc cycle (fst p) e" p q]
    by (simp_all add: assign_employee_flat)
  note b = Cons.IH[OF rest]
  have "same_tables (fst p) (fst p')" using a(1) b same_tables_trans by blast
  moreover have "keys p \<subseteq> keys p'" using a(2) b by blast
  moreover have "dto_key ` set (targets thirtyDaysAgo cycleId n inc cycle (fst p) e) \<subseteq> keys p'"
    using a(3) b by blast
  moreover have "\<forall>e'\<in>set es. dto_key ` set (targets thirtyDaysAgo cycleId n inc cycle (fst p) e') \<subseteq> keys p'"
    using b targets_same[OF a(1)] by simp
  ultimately show ?case by simp
qed

lemma assign_all_present:
  "\<forall>e\<in>set es. dto_key ` set (targets thirtyDaysAgo cycleId n inc cycle (fst p) e) \<subseteq> keys p \<Longrightarrow>
     for_each (assign_employee rejects now thirtyDaysAgo cycleId n inc cycle) es p = Inr p"
  by (induction es) (simp_all add: assign_employee_flat create_all_present)

lemma assign_all_no_fault:
  "\<exists>p'. for_each (assign_employee (\<lambda>d. False) now thirtyDaysAgo cycleId n inc cycle) es p = Inr p'"
proof (induction es arbitrary: p)
  case Nil show ?case by simp
next
  case (Cons e es)
  obtain q where "assign_employee (\<lambda>d. False) now thirtyDaysAgo cycleId n inc cycle e p = Inr q"
    using create_all_no_fault[of "targets thirtyDaysAgo cycleId n inc cycle (fst p) e" "\<lambda>d. False" now p]
    by (auto simp: assign_employee_flat)
  then show ?case using Cons by simp
qed

lemma assign_employee_preserves:
  assumes "unique_requests (fst p)"
  shows "case assign_employee rejects now thirtyDaysAgo cycleId n inc cycle e p of
           Inl failure \<Rightarrow> fst failure = StorageError \<and> same_tables (fst p) (snd failure)
                            \<and> unique_requests (snd failure)
         | Inr p' \<Rightarrow> same_tables (fst p) (fst p') \<and> unique_requests (fst p')"
  using assms create_all_Inr[of rejects now "targets thirtyDaysAgo cycleId n inc cycle (fst p) e" p]
        create_all_Inl[of rejects now "targets thirtyDaysAgo cycleId n inc cycle (fst p) e" p]
  by (auto simp: assign_employee_flat split: sum.splits)

lemma assign_employee_tables:
  shows "case assign_employee rejects now thirtyDaysAgo cycleId n inc cycle e p of
           Inl failure \<Rightarrow> fst failure = StorageError \<and> same_tables (fst p) (snd failure)
         | Inr p' \<Rightarrow> same_tables (fst p) (fst p')"
  using create_all_Inr[of rejects now "targets thirtyDaysAgo cycleId n inc cycle (fst p) e" p]
        create_all_Inl[of rejects now "targets thirtyDaysAgo cycleId n inc cycle (fst p) e" p]
  by (auto simp: assign_employee_flat split: sum.splits)

lemma assign_all_unique:
  assumes "unique_requests (fst p)"
  shows "case for_each (assign_employee rejects now thirtyDaysAgo cycleId n inc cycle) es p of
           Inl failure \<Rightarrow> unique_requests (snd failure)
         | Inr p' \<Rightarrow> unique_requests (fst p')"
proof (rule for_each_invariant[where I = "\<lambda>q. unique_requests (fst q)"])
  fix e q q' assume "unique_requests (fst q)" "assign_employee rejects now thirtyDaysAgo cycleId n inc cycle e q = Inr q'"
  then show "unique_requests (fst q')"
    using assign_employee_preserves[where p = q and rejects = rejects and now = now
        and thirtyDaysAgo = thirtyDaysAgo and cycleId = cycleId and n = n and inc = inc and cycle = cycle and e = e]
    by simp
next
  fix e q failure assume "unique_requests (fst q)" "assign_employee rejects now thirtyDaysAgo cycleId n inc cycle e q = Inl failure"
  then show "unique_requests (snd failure)"
    using assign_employee_preserves[where p = q and rejects = rejects and now = now
        and thirtyDaysAgo = thirtyDaysAgo and cycleId = cycleId and n = n and inc = inc and cycle = cycle and e = e]
    by simp
next
  show "unique_requests (fst p)" by (rule assms)
qed

lemma assign_all_tables:
  shows "case for_each (assign_employee rejects now thirtyDaysAgo cycleId n inc cycle) es p of
           Inl failure \<Rightarrow> fst failure = StorageError \<and> same_tables (fst p) (snd failure)
         | Inr p' \<Rightarrow> same_tables (fst p) (fst p')"
proof (rule for_each_invariant[where I = "\<lambda>q. same_tables (fst p) (fst q)"])
  fix e q q' assume "same_tables (fst p) (fst q)" "assign_employee rejects now thirtyDaysAgo cycleId n inc cycle e q = Inr q'"
  then show "same_tables (fst p) (fst q')"
    using assign_employee_tables[where p = q and rejects = rejects and now = now
        and thirtyDaysAgo = thirtyDaysAgo and cycleId = cycleId and n = n and inc = inc and cycle = cycle and e = e]
      same_tables_trans
    by auto
next
  fix e q failure assume "same_tables (fst p) (fst q)" "assign_employee rejects now thirtyDaysAgo cycleId n inc cycle e q = Inl failure"
  then show "fst failure = StorageError \<and> same_tables (fst p) (snd failure)"
    using assign_employee_tables[where p = q and rejects = rejects and now = now
        and thirtyDaysAgo = thirtyDaysAgo and cycleId = cycleId and n = n and inc = inc and cycle = cycle and e = e]
      same_tables_trans
    by auto
next
  show "same_tables (fst p) (fst p)" by (rule same_tables_refl)
qed

lemma rank_step:
  "snd (rankPeers now employeeId s) =
     s\<lparr>peer_rankings := filter (\<lambda>r. pr_employee_id r \<noteq> employeeId) (peer_rankings s)
                          @ fresh_rows now s employeeId\<rparr>"
  by (simp add: rankPeers_def saveRankings_def fresh_rows_def Let_def)

lemma fresh_rows_cong: "collaborations t = collaborations s \<Longrightarrow> fresh_rows now t e = fresh_rows now s e"
  by (simp add: fresh_rows_def collaborations_of_def)

lemma filter_fresh_rows:
  "filter (\<lambda>r. pr_employee_id r = i) (fresh_rows now s e) = (if i = e then fresh_rows now s e else [])"
  by (auto simp: fresh_rows_def filter_map comp_def)

lemma rank_fold_frame:
  "employees (fold (\<lambda>employee s'. snd (rankPeers now (e_id employee) s')) es s) = employees s
 \<and> collaborations (fold (\<lambda>employee s'. snd (rankPeers now (e_id employee) s')) es s) = collaborations s
 \<and> feedback_cycles (fold (\<lambda>employee s'. snd (rankPeers now (e_id employee) s')) es s) = feedback_cycles s
 \<and> feedback_requests (fold (\<lambda>employee s'. snd (rankPeers now (e_id employee) s')) es s) = feedback_requests s
 \<and> feedback_responses (fold (\<lambda>employee s'. snd (rankPeers now (e_id employee) s')) es s) = feedback_responses s
 \<and> request_seq (fold (\<lambda>employee s'. snd (rankPeers now (e_id employee) s')) es s) = request_seq s"
  by (induction es arbitrary: s) (simp_all add: rank_step)

lemma rank_fold_rows:
  "e \<in> set es \<Longrightarrow>
   filter (\<lambda>r. pr_employee_id r = e_id e)
     (peer_rankings (fold (\<lambda>employee s'. snd (rankPeers now (e_id employee) s')) es s))
   = fresh_rows now s (e_id e)"
proof (induction es arbitrary: e rule: rev_induct)
  case Nil then show ?case by simp
next
  case (snoc x xs)
  define s' where "s' = fold (\<lambda>employee s'. snd (rankPeers now (e_id employee) s')) xs s"
  have c: "collaborations s' = collaborations s" unfolding s'_def using rank_fold_frame by blast
  have step: "peer_rankings (fold (\<lambda>employee s'. snd (rankPeers now (e_id employee) s')) (xs @ [x]) s)
      = filter (\<lambda>r. pr_employee_id r \<noteq> e_id x) (peer_rankings s') @ fresh_rows now s (e_id x)"
    using rank_step[of now "e_id x" s'] fresh_rows_cong[OF c] by (simp add: s'_def)
  show ?case
  proof (cases "e_id e = e_id x")
    case True
    then show ?thesis unfolding step by (simp add: filter_fresh_rows)
  next
    case False
    then have "e \<in> set xs" using snoc.prems by auto
    then have ih: "filter (\<lambda>r. pr_employee_id r = e_id e) (peer_rankings s') = fresh_rows now s (e_id e)"
      unfolding s'_def by (rule snoc.IH)
    have "filter (\<lambda>r. pr_employee_id r \<noteq> e_id x \<and> pr_employee_id r = e_id e) (peer_rankings s')
        = filter (\<lambda>r. pr_employee_id r = e_id e) (peer_rankings s')"
      using False by (intro filter_cong) auto
    then show ?thesis unfolding step using False ih by (simp add: filter_fresh_rows)
  qed
qed

lemma rankAllPeers_frame:
  "employees (rankAllPeers now s) = employees s"
  "collaborations (rankAllPeers now s) = collaborations s"
  "feedback_cycles (rankAllPeers now s) = feedback_cycles s"
  "feedback_requests (rankAllPeers now s) = feedback_requests s"
  "feedback_responses (rankAllPeers now s) = feedback_responses s"
  "request_seq (rankAllPeers now s) = request_seq s"
  using rank_fold_frame[of now "employees s" s] by (simp_all add: rankAllPeers_def)

lemma rankAllPeers_rows:
  "e \<in> set (employees s) \<Longrightarrow>
   filter (\<lambda>r. pr_employee_id r = e_id e) (peer_rankings (rankAllPeers now s)) = fresh_rows now s (e_id e)"
  by (simp add: rankAllPeers_def rank_fold_rows)

lemma getRankedPeers_after_rank:
  assumes "e \<in> set (employees s)"
  shows "getRankedPeers (rankAllPeers now s) (e_id e) limit =
     sql_limit limit (sort_key pr_rank_position
        (filter (\<lambda>r. pr_peer_id r \<in> set (map e_id (employees s))) (fresh_rows now s (e_id e))))"
proof -
  have "filter (\<lambda>r. pr_employee_id r = e_id e \<and> pr_peer_id r \<in> set (map e_id (employees s)))
          (peer_rankings (rankAllPeers now s))
        = filter (\<lambda>r. pr_peer_id r \<in> set (map e_id (employees s)))
            (filter (\<lambda>r. pr_employee_id r = e_id e) (peer_rankings (rankAllPeers now s)))"
    by (simp only: filter_filter)
  also have "\<dots> = filter (\<lambda>r. pr_peer_id r \<in> set (map e_id (employees s))) (fresh_rows now s (e_id e))"
    by (simp only: rankAllPeers_rows[OF assms])
  finally show ?thesis
    unfolding getRankedPeers_def rankAllPeers_frame(1) by (rule arg_cong)
qed

lemma targets_after_rank:
  assumes "e \<in> set (employees s)" "employees t = employees s" "collaborations t = collaborations s"
          "feedback_responses t = feedback_responses s"
  shows "targets thirtyDaysAgo cycleId n inc cycle (rankAllPeers now t) e
       = targets thirtyDaysAgo cycleId n inc cycle (rankAllPeers now s) e"
proof -
  have "e \<in> set (employees t)" using assms by simp
  then have g: "getRankedPeers (rankAllPeers now t) (e_id e) (n + 10)
                  = getRankedPeers (rankAllPeers now s) (e_id e) (n + 10)"
    unfolding getRankedPeers_after_rank[OF \<open>e \<in> set (employees t)\<close>] getRankedPeers_after_rank[OF assms(1)]
    by (simp only: assms(2) fresh_rows_cong[OF assms(3)])
  have f: "\<And>peers. filterRecentFeedback (rankAllPeers now t) thirtyDaysAgo peers (e_id e)
                    = filterRecentFeedback (rankAllPeers now s) thirtyDaysAgo peers (e_id e)"
    by (simp only: filterRecentFeedback_def rankAllPeers_frame assms(4))
  have d: "direct_reports (rankAllPeers now t) (e_id e) = direct_reports (rankAllPeers now s) (e_id e)"
    by (simp only: direct_reports_def rankAllPeers_frame assms(2))
  show ?thesis
    unfolding targets_def selected_peers_def g f d ..
qed

subsection \<open>Evaluation on the example database\<close>

lemmas model_defs =
  assignFeedbackRequests_def assign_employee_def create_unless_exists_def createFeedbackRequest_def
  checkExistingAssignment_def getCycle_def filterRecentFeedback_def array_slice0_def
  getRankedPeers_def sql_limit_def direct_reports_def truthy_id_def db_after_def
  rankAllPeers_def saveRankings_def rank_defs

lemma demo_rank:
  "peer_rankings (rankAllPeers 0 demo_db) =
     [\<lparr>pr_employee_id = 1, pr_peer_id = 2, pr_collaboration_score = 4, pr_rank_position = 1, pr_calculated_at = 0\<rparr>,
      \<lparr>pr_employee_id = 2, pr_peer_id = 1, pr_collaboration_score = 4, pr_rank_position = 1, pr_calculated_at = 0\<rparr>]"
  by (simp add: demo_db_def model_defs)

lemma demo_assign:
  "map (\<lambda>r. (fr_id r, fr_requester_id r, fr_provider_id r, fr_request_type r))
     (feedback_requests (db_after (assignFeedbackRequests (\<lambda>d. False) 0 thirty_days_before_0 ''c1'' 2 True demo_db)))
   = [(1, 1, 2, ''peer''), (2, 2, 1, ''peer'')]"
  by (simp add: demo_db_def model_defs)


subsection \<open>Doubles\<close>

lemma pow2_powr: "pow2 e = 2 powr (of_int e)"
  by (simp add: pow2_def powr_int)

lemma pow2_pos: "0 < pow2 e"
  by (simp add: pow2_powr)

lemma pow2_add: "pow2 (a + b) = pow2 a * pow2 b"
  by (simp add: pow2_powr powr_add)

lemma pow2_nat: "pow2 (int n) = 2 ^ n"
  by (simp add: pow2_def)

lemma round_half_even_close: "\<bar>of_int (round_half_even y) - y\<bar> \<le> 1 / 2"
proof -
  have "of_int \<lfloor>y\<rfloor> \<le> y" "y < of_int \<lfloor>y\<rfloor> + 1" by linarith+
  then show ?thesis by (auto simp: round_half_even_def Let_def)
qed

lemma round_half_even_of_int: "round_half_even (of_int m) = m"
  by (simp add: round_half_even_def)

lemma round_half_even_nonneg: "0 \<le> y \<Longrightarrow> 0 \<le> round_half_even y"
  by (auto simp: round_half_even_def Let_def)

lemma to_double_ulp: "\<bar>to_double x - x\<bar> \<le> pow2 (ulp_exponent x) / 2"
proof -
  define u where "u = pow2 (ulp_exponent x)"
  define a where "a = real_of_int (round_half_even (x / u))"
  have u: "0 < u" unfolding u_def by (rule pow2_pos)
  have "\<bar>a - x / u\<bar> \<le> 1 / 2" unfolding a_def by (rule round_half_even_close)
  then have "\<bar>a - x / u\<bar> * u \<le> 1 / 2 * u"
    using u by (simp only: mult_le_cancel_right_pos)
  moreover have "(a - x / u) * u = a * u - x" using u by (simp add: field_simps)
  then have "\<bar>a - x / u\<bar> * u = \<bar>a * u - x\<bar>"
    using u by (metis abs_mult abs_of_pos)
  ultimately have "\<bar>a * u - x\<bar> \<le> u / 2" by simp
  then show ?thesis by (simp add: to_double_def a_def u_def)
qed

lemma ulp_exponent_alt:
  "K = 1074 \<Longrightarrow>
   ulp_exponent x = max (bitlen \<lfloor>\<bar>x\<bar> * 2 ^ K\<rfloor> - (int K + 53)) (- int K)"
  by (simp add: ulp_exponent_def)

lemma ulp_le:
  "pow2 (ulp_exponent x) \<le> \<bar>x\<bar> / 2 ^ 52 + pow2 (- 1074)"
proof -
  obtain K :: nat where K: "K = 1074" by simp
  note alt = ulp_exponent_alt[OF K, of x]
  have m: "pow2 (- 1074) = pow2 (- int K)" by (simp add: K)
  let ?N = "\<lfloor>\<bar>x\<bar> * 2 ^ K\<rfloor>"
  let ?b = "bitlen ?N"
  show ?thesis
  proof (cases "?b - (int K + 53) \<le> - int K")
    case True
    then have "ulp_exponent x = - int K" unfolding alt by simp
    then show ?thesis unfolding m by simp
  next
    case False
    have b: "53 < ?b" using False by simp
    then have Npos: "0 < ?N" using bitlen_eq_zero_iff[of ?N] by (cases "?N \<le> 0") auto
    have e: "ulp_exponent x = ?b - (int K + 53)" unfolding alt using False by simp
    have "2 ^ nat (?b - 1) \<le> ?N" using bitlen_bounds[OF Npos] by simp
    then have "real_of_int (2 ^ nat (?b - 1)) \<le> of_int ?N" by (simp only: of_int_le_iff)
    also have "\<dots> \<le> \<bar>x\<bar> * 2 ^ K" by (rule of_int_floor_le)
    finally have low: "(2::real) ^ nat (?b - 1) \<le> \<bar>x\<bar> * 2 ^ K" by simp
    have "pow2 (?b - (int K + 53)) * (2 ^ 52 * 2 ^ K)
            = pow2 (?b - (int K + 53)) * pow2 (int (52 + K))"
      unfolding pow2_nat by (simp only: power_add)
    also have "\<dots> = pow2 ((?b - (int K + 53)) + int (52 + K))" by (simp only: pow2_add)
    also have "(?b - (int K + 53)) + int (52 + K) = ?b - 1" by simp
    also have "pow2 (?b - 1) = 2 ^ nat (?b - 1)" using b by (simp add: pow2_def)
    finally have "pow2 (?b - (int K + 53)) * (2 ^ 52 * 2 ^ K) \<le> \<bar>x\<bar> * 2 ^ K"
      using low by simp
    then have "(pow2 (?b - (int K + 53)) * 2 ^ 52) * 2 ^ K \<le> \<bar>x\<bar> * 2 ^ K"
      by (simp only: mult.assoc)
    then have "pow2 (?b - (int K + 53)) * 2 ^ 52 \<le> \<bar>x\<bar>"
      by (simp only: mult_le_cancel_right_pos zero_less_power zero_less_numeral)
    then have "pow2 (?b - (int K + 53)) \<le> \<bar>x\<bar> / 2 ^ 52" by (simp add: field_simps)
    moreover have "0 < pow2 (- 1074)" by (rule pow2_pos)
    ultimately show ?thesis unfolding e by linarith
  qed
qed

lemma to_double_close: "\<bar>to_double x - x\<bar> \<le> \<bar>x\<bar> / 2 ^ 53 + 1 / 2 ^ 1075"
proof -
  define A where "A = \<bar>x\<bar> / 2 ^ 52"
  define B where "B = pow2 (- 1074)"
  have "pow2 (ulp_exponent x) \<le> A + B" unfolding A_def B_def by (rule ulp_le)
  then have "pow2 (ulp_exponent x) / 2 \<le> (A + B) / 2" by simp
  with to_double_ulp[of x] have "\<bar>to_double x - x\<bar> \<le> (A + B) / 2"
    by (rule order_trans)
  moreover have "(A + B) / 2 = \<bar>x\<bar> / 2 ^ 53 + 1 / 2 ^ 1075"
    unfolding A_def B_def by (simp add: pow2_def add_divide_distrib)
  ultimately show ?thesis by (simp only:)
qed

lemma to_double_nonneg: "0 \<le> x \<Longrightarrow> 0 \<le> to_double x"
  using pow2_pos[of "ulp_exponent x"]
  by (simp add: to_double_def round_half_even_nonneg)

lemma ulp_exponent_eq:
  assumes "- 1074 \<le> e" and "2 ^ 52 * pow2 e \<le> \<bar>x\<bar>" and "\<bar>x\<bar> < 2 ^ 53 * pow2 e"
  shows "ulp_exponent x = e"
proof -
  obtain K :: nat where K: "K = 1074" by simp
  note alt = ulp_exponent_alt[OF K, of x]
  let ?N = "\<lfloor>\<bar>x\<bar> * 2 ^ K\<rfloor>"
  have k: "0 \<le> e + int K" using assms(1) K by simp
  have p: "pow2 e * 2 ^ K = 2 ^ nat (e + int K)"
  proof -
    have "pow2 e * 2 ^ K = pow2 e * pow2 (int K)" unfolding pow2_nat ..
    also have "\<dots> = pow2 (e + int K)" by (simp only: pow2_add)
    also have "\<dots> = 2 ^ nat (e + int K)" using k by (simp add: pow2_def)
    finally show ?thesis .
  qed
  have "(2 ^ 52 * pow2 e) * 2 ^ K \<le> \<bar>x\<bar> * 2 ^ K"
    using assms(2) by (simp only: mult_le_cancel_right_pos zero_less_power zero_less_numeral)
  then have "2 ^ 52 * (pow2 e * 2 ^ K) \<le> \<bar>x\<bar> * 2 ^ K" by (simp only: mult.assoc)
  then have "(2::real) ^ (52 + nat (e + int K)) \<le> \<bar>x\<bar> * 2 ^ K"
    unfolding p by (simp only: power_add)
  then have "real_of_int (2 ^ (52 + nat (e + int K))) \<le> \<bar>x\<bar> * 2 ^ K" by simp
  then have lo: "2 ^ (52 + nat (e + int K)) \<le> ?N" by (simp only: le_floor_iff)
  have "\<bar>x\<bar> * 2 ^ K < (2 ^ 53 * pow2 e) * 2 ^ K"
    using assms(3) by (simp only: mult_less_cancel_right_pos zero_less_power zero_less_numeral)
  then have "\<bar>x\<bar> * 2 ^ K < 2 ^ 53 * (pow2 e * 2 ^ K)" by (simp only: mult.assoc)
  then have "\<bar>x\<bar> * 2 ^ K < (2::real) ^ (53 + nat (e + int K))"
    unfolding p by (simp only: power_add)
  then have "\<bar>x\<bar> * 2 ^ K < real_of_int (2 ^ (53 + nat (e + int K)))" by simp
  then have hi: "?N < 2 ^ (53 + nat (e + int K))" by (simp only: floor_less_iff)
  have "bitlen ?N \<le> int (53 + nat (e + int K))"
    using hi by (simp only: bitlen_le_iff_power nat_int) simp
  moreover have "int (53 + nat (e + int K)) \<le> bitlen ?N"
    using lo by (simp only: bitlen_ge_iff_power nat_int) simp
  ultimately have "bitlen ?N = 53 + (e + int K)" using k by simp
  then show ?thesis unfolding alt using k by simp
qed

lemma to_double_eval:
  assumes "- 1074 \<le> e" and "2 ^ 52 * pow2 e \<le> \<bar>x\<bar>" and "\<bar>x\<bar> < 2 ^ 53 * pow2 e"
  shows "to_double x = of_int (round_half_even (x / pow2 e)) * pow2 e"
  unfolding to_double_def ulp_exponent_eq[OF assms] ..

lemma to_double_0: "to_double 0 = 0"
  by (simp add: to_double_def round_half_even_def)

lemma to_double_of_nat:
  assumes "n < 2 ^ 53"
  shows "to_double (real n) = real n"
proof (cases "n = 0")
  case True
  then show ?thesis by (simp add: to_double_0)
next
  case False
  obtain K :: nat where K: "K = 1074" by simp
  note alt = ulp_exponent_alt[OF K, of "real n"]
  have "\<bar>real n\<bar> * 2 ^ K = real_of_int (int n * 2 ^ K)" by simp
  then have "\<lfloor>\<bar>real n\<bar> * 2 ^ K\<rfloor> = int n * 2 ^ K" by (simp only: floor_of_int)
  moreover have "bitlen (int n * 2 ^ K) = bitlen (int n) + int K"
    using False by (intro bitlen_pow2) simp
  ultimately have bl: "bitlen \<lfloor>\<bar>real n\<bar> * 2 ^ K\<rfloor> = bitlen (int n) + int K" by (simp only:)
  have b1: "bitlen (int n) \<le> 53" using assms by (simp add: bitlen_le_iff_power)
  have b0: "0 \<le> bitlen (int n)" by (rule bitlen_nonneg)
  have e: "ulp_exponent (real n) = bitlen (int n) - 53"
    unfolding alt bl using b0 K by simp
  define k where "k = nat (53 - bitlen (int n))"
  have pk: "pow2 (bitlen (int n) - 53) = 1 / 2 ^ k"
  proof (cases "bitlen (int n) = 53")
    case True then show ?thesis by (simp add: pow2_def k_def)
  next
    case False then show ?thesis using b1 by (simp add: pow2_def k_def)
  qed
  have "real n / (1 / 2 ^ k) = real_of_int (int n * 2 ^ k)" by simp
  then have "round_half_even (real n / (1 / 2 ^ k)) = int n * 2 ^ k"
    by (simp only: round_half_even_of_int)
  then show ?thesis unfolding to_double_def e pk by simp
qed

subsection \<open>Statistics and status updates\<close>

lemma sum_flags: "sum_list (map (\<lambda>r. if P r then 1 else 0) rows) = int (length (filter P rows))"
  by (induction rows) auto

lemma count_status_eq:
  "count_status status rows = (if rows = [] then None else Some (int (count_with_status status rows)))"
  by (simp add: count_status_def sql_sum_def count_with_status_def sum_flags)

lemma round2_close: "0 \<le> x \<Longrightarrow> \<bar>round2 x - x\<bar> \<le> 1 / 200"
proof -
  assume nonneg: "0 \<le> x"
  define k where "k = real_of_int \<lfloor>x * 100 + 1 / 2\<rfloor>"
  have "k \<le> x * 100 + 1 / 2" unfolding k_def by (rule of_int_floor_le)
  moreover have "x * 100 + 1 / 2 < k + 1" unfolding k_def by linarith
  moreover have "round2 x = k / 100" using nonneg by (simp add: round2_def k_def)
  ultimately show ?thesis by linarith
qed

lemma to_double_pos:
  assumes "1 \<le> x"
  shows "0 < to_double x"
proof -
  have "\<bar>to_double x - x\<bar> \<le> \<bar>x\<bar> / 2 ^ 53 + 1 / 2 ^ 1075" by (rule to_double_close)
  moreover have "(1::real) / 2 ^ 1075 \<le> 1 / 4" by simp
  moreover have "\<bar>x\<bar> / 2 ^ 53 \<le> x / 2" using assms by simp
  ultimately show ?thesis using assms by linarith
qed

lemma getCycleStats_counts:
  assumes "requests_of_cycle s cycleId \<noteq> []"
  shows "total_requests (getCycleStats s cycleId) = int (length (requests_of_cycle s cycleId))"
    and "completed_count (getCycleStats s cycleId)
           = Some (int (count_with_status ''completed'' (requests_of_cycle s cycleId)))"
    and "pending_count (getCycleStats s cycleId)
           = Some (int (count_with_status ''pending'' (requests_of_cycle s cycleId)))"
    and "overdue_count (getCycleStats s cycleId)
           = Some (int (count_with_status ''overdue'' (requests_of_cycle s cycleId)))"
  using assms
  by (simp_all add: getCycleStats_def requests_of_cycle_def[symmetric] count_status_eq Let_def)

lemma getCycleStats_rate:
  assumes "requests_of_cycle s cycleId \<noteq> []"
  shows "completion_rate (getCycleStats s cycleId)
     = Some (sql_round2
               (to_double
                  (to_double
                     (to_double (real (count_with_status ''completed'' (requests_of_cycle s cycleId)))
                      / to_double (real (length (requests_of_cycle s cycleId))))
                   * 100)))"
proof -
  have "1 \<le> real (length (requests_of_cycle s cycleId))"
    using assms by (cases "requests_of_cycle s cycleId") simp_all
  then have "to_double (real (length (requests_of_cycle s cycleId))) \<noteq> 0"
    using to_double_pos by fastforce
  then show ?thesis
    using assms
    by (simp add: getCycleStats_def requests_of_cycle_def[symmetric] count_status_eq
          cast_float_def sql_div_def sql_mul_def Let_def)
qed

lemma getCycleStats_empty:
  assumes "requests_of_cycle s cycleId = []"
  shows "getCycleStats s cycleId =
     \<lparr> total_requests = 0, completed_count = None, pending_count = None, overdue_count = None,
       completion_rate = None \<rparr>"
  using assms
  by (simp add: getCycleStats_def requests_of_cycle_def[symmetric] count_status_eq
        cast_float_def sql_div_def sql_mul_def Let_def)

lemma count_with_status_le: "count_with_status status rows \<le> length rows"
  by (simp add: count_with_status_def)

lemma rate_close:
  assumes "0 < t" and "c \<le> t"
  shows "\<exists>k::int. sql_round2 (to_double (to_double (real c / real t) * 100))
                    = to_double (real_of_int k / 100)
                \<and> \<bar>real_of_int k / 100 - real c / real t * 100\<bar> \<le> 1 / 200 + 1 / 2 ^ 40"
proof -
  define v where "v = real c / real t"
  define q where "q = to_double v"
  define x where "x = to_double (q * 100)"
  define d where "d = (1::real) / 2 ^ 53"
  define eta where "eta = (1::real) / 2 ^ 1075"
  have v0: "0 \<le> v" unfolding v_def by simp
  have v1: "v \<le> 1" unfolding v_def using assms by simp
  have d: "0 < d" "402 * d \<le> 1 / 2 ^ 40" unfolding d_def by simp_all
  have eta: "0 < eta" "eta \<le> d" unfolding eta_def d_def by simp_all
  have q0: "0 \<le> q" unfolding q_def using v0 by (rule to_double_nonneg)
  have "\<bar>q - v\<bar> \<le> \<bar>v\<bar> / 2 ^ 53 + 1 / 2 ^ 1075" unfolding q_def by (rule to_double_close)
  moreover have "\<bar>v\<bar> / 2 ^ 53 \<le> d" unfolding d_def using v0 v1 by (simp add: field_simps)
  ultimately have qv: "\<bar>q - v\<bar> \<le> d + eta" unfolding eta_def by linarith
  have q2: "q \<le> 2"
  proof -
    have "d \<le> 1 / 4" unfolding d_def by simp
    then show ?thesis using qv v1 eta by linarith
  qed
  have x0: "0 \<le> x" unfolding x_def using q0 by (intro to_double_nonneg) simp
  have "\<bar>x - q * 100\<bar> \<le> \<bar>q * 100\<bar> / 2 ^ 53 + 1 / 2 ^ 1075"
    unfolding x_def by (rule to_double_close)
  moreover have "\<bar>q * 100\<bar> / 2 ^ 53 \<le> 200 * d"
    unfolding d_def using q0 q2 by (simp add: field_simps)
  ultimately have xq: "\<bar>x - q * 100\<bar> \<le> 200 * d + eta" unfolding eta_def by linarith
  have xv: "\<bar>x - v * 100\<bar> \<le> 1 / 2 ^ 40" using xq qv d eta by linarith
  have "(1::real) / 2 ^ 40 \<le> 1" by simp
  then have "x \<le> 101" using xv v1 by linarith
  then have guard: "\<not> (x < - 4503599627370496 \<or> 4503599627370496 < x)" using x0 by simp
  define k where "k = \<lfloor>x * 100 + 1 / 2\<rfloor>"
  have r: "round2 x = real_of_int k / 100" unfolding k_def using x0 by (simp add: round2_def)
  have "\<bar>round2 x - x\<bar> \<le> 1 / 200" using x0 by (rule round2_close)
  then have "\<bar>real_of_int k / 100 - v * 100\<bar> \<le> 1 / 200 + 1 / 2 ^ 40"
    unfolding r using xv by linarith
  moreover have "sql_round2 x = to_double (real_of_int k / 100)"
    using guard by (simp add: sql_round2_def r)
  ultimately show ?thesis unfolding x_def q_def v_def by blast
qed

lemma rate_7_10: "sql_round2 (to_double (to_double (7 / 10) * 100)) = 70"
proof -
  have "to_double (7 / 10) = of_int (round_half_even (7 / 10 / pow2 (- 53))) * pow2 (- 53)"
    by (rule to_double_eval) (simp_all add: pow2_def)
  also have "7 / 10 / pow2 (- 53) = 31525197391593472 / 5" by (simp add: pow2_def)
  also have "round_half_even (31525197391593472 / 5) = 6305039478318694"
    by (simp add: round_half_even_def Let_def)
  finally have q: "to_double (7 / 10) = 6305039478318694 / 2 ^ 53" by (simp add: pow2_def)
  have "to_double (6305039478318694 / 2 ^ 53 * 100)
          = of_int (round_half_even (6305039478318694 / 2 ^ 53 * 100 / pow2 (- 46))) * pow2 (- 46)"
    by (rule to_double_eval) (simp_all add: pow2_def)
  also have "6305039478318694 / 2 ^ 53 * 100 / pow2 (- 46) = 78812993478983675 / 16"
    by (simp add: pow2_def)
  also have "round_half_even (78812993478983675 / 16) = 4925812092436480"
    by (simp add: round_half_even_def Let_def)
  finally have x: "to_double (6305039478318694 / 2 ^ 53 * 100) = 4925812092436480 / 2 ^ 46"
    by (simp add: pow2_def)
  have "round2 (4925812092436480 / 2 ^ 46) = 70" by (simp add: round2_def)
  moreover have "to_double 70 = 70" using to_double_of_nat[of 70] by simp
  ultimately show ?thesis unfolding q x by (simp add: sql_round2_def)
qed

lemma rate_23_160: "sql_round2 (to_double (to_double (23 / 160) * 100)) = to_double (1437 / 100)"
proof -
  have "to_double (23 / 160) = of_int (round_half_even (23 / 160 / pow2 (- 55))) * pow2 (- 55)"
    by (rule to_double_eval) (simp_all add: pow2_def)
  also have "23 / 160 / pow2 (- 55) = 25895697857380352 / 5" by (simp add: pow2_def)
  also have "round_half_even (25895697857380352 / 5) = 5179139571476070"
    by (simp add: round_half_even_def Let_def)
  finally have q: "to_double (23 / 160) = 5179139571476070 / 2 ^ 55" by (simp add: pow2_def)
  have "to_double (5179139571476070 / 2 ^ 55 * 100)
          = of_int (round_half_even (5179139571476070 / 2 ^ 55 * 100 / pow2 (- 49))) * pow2 (- 49)"
    by (rule to_double_eval) (simp_all add: pow2_def)
  also have "5179139571476070 / 2 ^ 55 * 100 / pow2 (- 49) = 64739244643450875 / 8"
    by (simp add: pow2_def)
  also have "round_half_even (64739244643450875 / 8) = 8092405580431359"
    by (simp add: round_half_even_def Let_def)
  finally have x: "to_double (5179139571476070 / 2 ^ 55 * 100) = 8092405580431359 / 2 ^ 49"
    by (simp add: pow2_def)
  have r: "round2 (8092405580431359 / 2 ^ 49) = 1437 / 100" by (simp add: round2_def)
  show ?thesis unfolding q x sql_round2_def r by simp
qed

lemma rate_41_160: "sql_round2 (to_double (to_double (41 / 160) * 100)) = to_double (2562 / 100)"
proof -
  have "to_double (41 / 160) = of_int (round_half_even (41 / 160 / pow2 (- 54))) * pow2 (- 54)"
    by (rule to_double_eval) (simp_all add: pow2_def)
  also have "41 / 160 / pow2 (- 54) = 23080948090273792 / 5" by (simp add: pow2_def)
  also have "round_half_even (23080948090273792 / 5) = 4616189618054758"
    by (simp add: round_half_even_def Let_def)
  finally have q: "to_double (41 / 160) = 4616189618054758 / 2 ^ 54" by (simp add: pow2_def)
  have "to_double (4616189618054758 / 2 ^ 54 * 100)
          = of_int (round_half_even (4616189618054758 / 2 ^ 54 * 100 / pow2 (- 48))) * pow2 (- 48)"
    by (rule to_double_eval) (simp_all add: pow2_def)
  also have "4616189618054758 / 2 ^ 54 * 100 / pow2 (- 48) = 57702370225684475 / 8"
    by (simp add: pow2_def)
  also have "round_half_even (57702370225684475 / 8) = 7212796278210559"
    by (simp add: round_half_even_def Let_def)
  finally have x: "to_double (4616189618054758 / 2 ^ 54 * 100) = 7212796278210559 / 2 ^ 48"
    by (simp add: pow2_def)
  have r: "round2 (7212796278210559 / 2 ^ 48) = 2562 / 100" by (simp add: round2_def)
  show ?thesis unfolding q x sql_round2_def r by simp
qed

lemma updateRequestStatus_rows:
  "i < length (feedback_requests s) \<Longrightarrow>
   feedback_requests (updateRequestStatus now requestId status s) ! i =
     (let r = feedback_requests s ! i
      in if fr_id r = requestId
         then r\<lparr>fr_status := status,
                fr_completed_at := (if status = ''completed'' then Some now else fr_completed_at r)\<rparr>
         else r)"
  by (simp add: updateRequestStatus_def Let_def)

subsection \<open>Closing cycles\<close>










section \<open>The claims\<close>

subsection \<open>C1: a second run creates nothing\<close>

lemma getCycle_after_rank: "getCycle (rankAllPeers now s) cycleId = getCycle s cycleId"
  by (simp add: getCycle_def rankAllPeers_frame)

lemma second_run_creates_nothing:
  assumes "assignFeedbackRequests rejects now thirtyDaysAgo cycleId n inc s = Inr (t, created)"
  shows "assignFeedbackRequests rejects' now thirtyDaysAgo cycleId n inc t = Inr (rankAllPeers now t, [])"
proof -
  let ?s1 = "rankAllPeers now s"
  let ?t1 = "rankAllPeers now t"
  from assms obtain cycle where cycle: "getCycle ?s1 cycleId = Some cycle"
      and run: "for_each (assign_employee rejects now thirtyDaysAgo cycleId n inc cycle)
                  (employees ?s1) (?s1, []) = Inr (t, created)"
    by (auto simp: assignFeedbackRequests_def Let_def split: option.splits)
  from assign_all_Inr[OF run]
  have same: "same_tables ?s1 t"
    and covered: "\<forall>e\<in>set (employees ?s1).
        dto_key ` set (targets thirtyDaysAgo cycleId n inc cycle ?s1 e) \<subseteq> set (map request_key (feedback_requests t))"
    by simp_all
  have emp: "employees t = employees s" and col: "collaborations t = collaborations s"
    and rsp: "feedback_responses t = feedback_responses s" and cyc: "feedback_cycles t = feedback_cycles s"
    using same by (simp_all add: same_tables_def rankAllPeers_frame)
  have cycle': "getCycle ?t1 cycleId = Some cycle"
    using cycle cyc by (simp add: getCycle_def rankAllPeers_frame)
  have "\<forall>e\<in>set (employees ?t1).
      dto_key ` set (targets thirtyDaysAgo cycleId n inc cycle (fst (?t1, [])) e) \<subseteq> keys (?t1, [])"
  proof
    fix e assume "e \<in> set (employees ?t1)"
    then have e: "e \<in> set (employees s)" by (simp add: rankAllPeers_frame emp)
    have "targets thirtyDaysAgo cycleId n inc cycle ?t1 e = targets thirtyDaysAgo cycleId n inc cycle ?s1 e"
      using targets_after_rank[OF e emp col rsp] .
    moreover have "e \<in> set (employees ?s1)" using e by (simp add: rankAllPeers_frame)
    ultimately show "dto_key ` set (targets thirtyDaysAgo cycleId n inc cycle (fst (?t1, [])) e) \<subseteq> keys (?t1, [])"
      using covered by (simp add: rankAllPeers_frame)
  qed
  then have "for_each (assign_employee rejects' now thirtyDaysAgo cycleId n inc cycle) (employees ?t1) (?t1, []) = Inr (?t1, [])"
    by (rule assign_all_present)
  then show ?thesis using cycle' by (simp add: assignFeedbackRequests_def Let_def)
qed

lemma first_run_completes:
  assumes "getCycle s cycleId \<noteq> None"
  shows "\<exists>t created. assignFeedbackRequests (\<lambda>d. False) now thirtyDaysAgo cycleId n inc s = Inr (t, created)"
proof -
  from assms obtain cycle where "getCycle (rankAllPeers now s) cycleId = Some cycle"
    by (auto simp: getCycle_after_rank)
  moreover obtain p where
    "for_each (assign_employee (\<lambda>d. False) now thirtyDaysAgo cycleId n inc cycle)
       (employees (rankAllPeers now s)) (rankAllPeers now s, []) = Inr p"
    using assign_all_no_fault by blast
  ultimately show ?thesis by (cases p) (simp add: assignFeedbackRequests_def Let_def)
qed

text \<open>
  Claim C1. With a storage layer that rejects nothing and one clock reading for both
  calls (the time, and with it the text of the date thirty days before), calling \<^verbatim>\<open>assignFeedbackRequests\<close> for an existing cycle and then calling it
  again with the same arguments on the database the first call left: the first call
  returns, the second call returns the empty list of assignments, and the rows of
  \<^verbatim>\<open>feedback_requests\<close> after the second call are the rows after the first. Every
  creation of a peer, manager or upward request is behind \<^verbatim>\<open>checkExistingAssignment\<close>,
  and the second call selects the same requests as the first, because it ranks the same
  collaborations again.
\<close>

theorem assign_twice_creates_nothing:
  assumes "getCycle s cycleId \<noteq> None"
  shows "\<exists>t created t'.
           assignFeedbackRequests (\<lambda>d. False) now thirtyDaysAgo cycleId peersPerEmployee include360 s
             = Inr (t, created)
         \<and> assignFeedbackRequests (\<lambda>d. False) now thirtyDaysAgo cycleId peersPerEmployee include360 t
             = Inr (t', [])
         \<and> feedback_requests t' = feedback_requests t"
proof -
  from first_run_completes[OF assms] obtain t created where
    first: "assignFeedbackRequests (\<lambda>d. False) now thirtyDaysAgo cycleId peersPerEmployee include360 s
              = Inr (t, created)"
    by blast
  have "assignFeedbackRequests (\<lambda>d. False) now thirtyDaysAgo cycleId peersPerEmployee include360 t
          = Inr (rankAllPeers now t, [])"
    using first by (rule second_run_creates_nothing)
  moreover have "feedback_requests (rankAllPeers now t) = feedback_requests t"
    by (rule rankAllPeers_frame)
  ultimately show ?thesis using first by blast
qed

theorem assign_twice_creates_nothing_witness:
  "getCycle demo_db ''c1'' \<noteq> None
   \<and> length (feedback_requests
        (db_after (assignFeedbackRequests (\<lambda>d. False) 0 thirty_days_before_0 ''c1'' 2 True demo_db))) = 2
   \<and> (\<exists>t created t'.
         assignFeedbackRequests (\<lambda>d. False) 0 thirty_days_before_0 ''c1'' 2 True demo_db = Inr (t, created)
       \<and> assignFeedbackRequests (\<lambda>d. False) 0 thirty_days_before_0 ''c1'' 2 True t = Inr (t', [])
       \<and> feedback_requests t' = feedback_requests t)"
proof -
  have cycle: "getCycle demo_db ''c1'' \<noteq> None"
    by (simp add: getCycle_def demo_db_def)
  have "length (map (\<lambda>r. (fr_id r, fr_requester_id r, fr_provider_id r, fr_request_type r))
          (feedback_requests
            (db_after (assignFeedbackRequests (\<lambda>d. False) 0 thirty_days_before_0 ''c1'' 2 True demo_db)))) = 2"
    unfolding demo_assign by simp
  then show ?thesis
    using cycle assign_twice_creates_nothing[OF cycle, of 0 thirty_days_before_0 2 True] by simp
qed

subsection \<open>C2: the collaboration score\<close>






subsection \<open>C3: the order of a ranking list\<close>







subsection \<open>C4: the stored rankings\<close>

text \<open>
  The claim as stated fails: \<^verbatim>\<open>assignFeedbackRequests\<close> begins with
  \<^verbatim>\<open>await peerRanker.rankAllPeers()\<close>. On \<open>demo_db\<close>, whose \<^verbatim>\<open>peer_rankings\<close> table
  is empty, the table has two rows after the call.
\<close>

theorem assign_recomputes_rankings:
  "peer_rankings demo_db = []
   \<and> length (peer_rankings
        (db_after (assignFeedbackRequests (\<lambda>d. False) 0 thirty_days_before_0 ''c1'' 2 True demo_db))) = 2"
  by (simp add: demo_db_def model_defs)

lemma peer_rankings_after_assign:
  "peer_rankings (db_after (assignFeedbackRequests rejects now thirtyDaysAgo cycleId n inc s))
     = peer_rankings (rankAllPeers now s)"
proof (cases "getCycle (rankAllPeers now s) cycleId")
  case None
  then show ?thesis by (simp add: assignFeedbackRequests_def db_after_def Let_def)
next
  case (Some cycle)
  show ?thesis
    using Some assign_all_tables[where p = "(rankAllPeers now s, [])" and rejects = rejects
        and now = now and thirtyDaysAgo = thirtyDaysAgo and cycleId = cycleId and n = n and inc = inc and cycle = cycle
        and es = "employees (rankAllPeers now s)"]
    by (auto simp: assignFeedbackRequests_def db_after_def Let_def same_tables_def
             split: sum.splits)
qed

text \<open>
  Claim C4, amended. \<^verbatim>\<open>assignFeedbackRequests\<close> recomputes the stored rankings
  itself, before it looks the cycle up: whichever way the invocation ends (the
  assignments, cycle not found, or a storage error), the \<^verbatim>\<open>peer_rankings\<close> table it
  leaves is the table that \<^verbatim>\<open>rankAllPeers\<close> computes from the database it was called
  on. The assignment loop itself does not write the table.
\<close>

theorem assign_rankings_are_reranked:
  "peer_rankings
     (db_after (assignFeedbackRequests rejects now thirtyDaysAgo cycleId peersPerEmployee include360 s))
     = peer_rankings (rankAllPeers now s)"
  by (rule peer_rankings_after_assign)

theorem assign_rankings_are_reranked_witness:
  "peer_rankings (db_after (assignFeedbackRequests (\<lambda>d. False) 0 thirty_days_before_0 ''c1'' 2 True demo_db)) =
     [\<lparr>pr_employee_id = 1, pr_peer_id = 2, pr_collaboration_score = 4,
        pr_rank_position = 1, pr_calculated_at = 0\<rparr>,
      \<lparr>pr_employee_id = 2, pr_peer_id = 1, pr_collaboration_score = 4,
        pr_rank_position = 1, pr_calculated_at = 0\<rparr>]"
  using assign_rankings_are_reranked[of "\<lambda>d. False" 0 thirty_days_before_0 "''c1''" 2 True demo_db]
  by (simp only: demo_rank)

subsection \<open>C5: a failure in one employee's step\<close>








subsection \<open>C6: self-assignment\<close>

text \<open>
  Claim C6 says that no generated request has the requester as its provider. The code
  breaks it. After \<^verbatim>\<open>recordInteraction(1, 1, 'chat', 1, 0)\<close> employee 1 is a ranked
  peer of employee 1, \<^verbatim>\<open>getRankedPeers\<close> returns that row (the comment at its call says
  ``excluding self'', the query excludes nothing), and a \<^verbatim>\<open>peer\<close> request from 1 to 1
  is created. With \<^verbatim>\<open>include360\<close>, an employee whose \<^verbatim>\<open>manager_id\<close> is their own id
  gets a \<^verbatim>\<open>manager\<close> request from 1 to 1.
\<close>

theorem self_assignment_created:
  "map (\<lambda>r. (fr_requester_id r, fr_provider_id r, fr_request_type r))
     (feedback_requests
       (db_after (assignFeedbackRequests (\<lambda>d. False) 0 thirty_days_before_0 ''c1'' 2 False
                    (recordInteraction 0 1 1 chat_type 1 0 solo_db))))
     = [(1, 1, ''peer'')]
   \<and> map (\<lambda>r. (fr_requester_id r, fr_provider_id r, fr_request_type r))
       (feedback_requests
         (db_after (assignFeedbackRequests (\<lambda>d. False) 0 thirty_days_before_0 ''c1'' 2 True solo_db)))
     = [(1, 1, ''manager'')]"
  by (simp add: solo_db_def recordInteraction_def upsert_collaboration_def same_pair_def
        model_defs)

subsection \<open>C7: uniqueness of requests\<close>

lemma unique_after_assign:
  assumes "unique_requests s"
  shows "unique_requests (db_after (assignFeedbackRequests rejects now thirtyDaysAgo cycleId n inc s))"
proof -
  have u: "unique_requests (rankAllPeers now s)"
    using assms by (simp add: unique_requests_def rankAllPeers_frame)
  show ?thesis
  proof (cases "getCycle (rankAllPeers now s) cycleId")
    case None
    then show ?thesis using u by (simp add: assignFeedbackRequests_def db_after_def Let_def)
  next
    case (Some cycle)
    have "unique_requests (fst (rankAllPeers now s, [] :: assignment list))" using u by simp
    from assign_all_unique[OF this, of rejects now thirtyDaysAgo cycleId n inc cycle
        "employees (rankAllPeers now s)"]
    show ?thesis using Some
      by (auto simp: assignFeedbackRequests_def db_after_def Let_def split: sum.splits)
  qed
qed

text \<open>
  Claim C7. If no two rows of \<^verbatim>\<open>feedback_requests\<close> have the same requester, provider
  and cycle before a run of \<^verbatim>\<open>assignFeedbackRequests\<close>, then no two rows have after
  it, whichever way the run ends and whatever the storage layer rejects: every
  \<^verbatim>\<open>INSERT\<close> comes after a \<^verbatim>\<open>checkExistingAssignment\<close> on the database as it is at
  that moment, so a person who is both a selected peer and the manager or a direct
  report of the requester gets one request.
\<close>

theorem assign_keeps_unique:
  "unique_requests s \<Longrightarrow>
   unique_requests
     (db_after (assignFeedbackRequests rejects now thirtyDaysAgo cycleId peersPerEmployee include360 s))"
  by (rule unique_after_assign)

theorem assign_keeps_unique_witness:
  "unique_requests demo_db
   \<and> unique_requests (db_after (assignFeedbackRequests (\<lambda>d. False) 0 thirty_days_before_0 ''c1'' 2 True demo_db))
   \<and> map (\<lambda>r. (fr_id r, fr_requester_id r, fr_provider_id r, fr_request_type r))
        (feedback_requests
          (db_after (assignFeedbackRequests (\<lambda>d. False) 0 thirty_days_before_0 ''c1'' 2 True demo_db)))
       = [(1, 1, 2, ''peer''), (2, 2, 1, ''peer'')]"
proof -
  have u: "unique_requests demo_db" by (simp add: unique_requests_def demo_db_def)
  from assign_keeps_unique[OF u, of "\<lambda>d. False" 0 thirty_days_before_0 "''c1''" 2 True]
  show ?thesis using u demo_assign by simp
qed

subsection \<open>C8: the statistics of a cycle\<close>

lemma tie_rows: "requests_of_cycle tie_db ''c1'' = feedback_requests tie_db"
  by (simp add: requests_of_cycle_def tie_db_def request_in_def filter_map comp_def)

lemma tie_counts:
  "length (requests_of_cycle tie_db ''c1'') = 160"
  "count_with_status ''completed'' (requests_of_cycle tie_db ''c1'') = 23"
proof -
  show "length (requests_of_cycle tie_db ''c1'') = 160"
    unfolding tie_rows by (simp add: tie_db_def)
  have split: "[1..<161] = [1..<24] @ [24..<161]"
    using upt_add_eq_append[of 1 24 137] by simp
  have "filter (\<lambda>n. n \<le> 23) [1..<24] = [1..<24]" by (rule filter_True) simp
  moreover have "filter (\<lambda>n. n \<le> 23) [24..<161] = []" by (rule filter_False) simp
  ultimately have "length (filter (\<lambda>n. n \<le> 23) [1..<161]) = 23"
    unfolding split by simp
  moreover have "filter (\<lambda>r. fr_status r = ''completed'') (feedback_requests tie_db)
      = map (\<lambda>n. request_in n (if n \<le> 23 then ''completed'' else ''pending''))
          (filter (\<lambda>n. n \<le> 23) [1..<161])"
    unfolding tie_db_def by (simp add: filter_map comp_def request_in_def cong: filter_cong)
  ultimately show "count_with_status ''completed'' (requests_of_cycle tie_db ''c1'') = 23"
    unfolding tie_rows count_with_status_def by simp
qed

text \<open>
  The claim as stated fails. For a cycle without requests the three counts are
  \<^verbatim>\<open>NULL\<close>, not 0: \<^verbatim>\<open>SUM\<close> over no rows is \<^verbatim>\<open>NULL\<close>. And the rate is rounded from the
  double that the division and the multiplication return, not from
  \<open>completed / total * 100\<close>: for 23 completed requests of 160 the percentage is
  \<open>14.375\<close>, which rounds to \<open>14.38\<close>, the double is just below it, and the rate is
  the double of \<open>14.37\<close>.
\<close>

theorem stats_of_empty_and_tied_cycles:
  "requests_of_cycle stats_db ''c2'' = []
   \<and> count_with_status ''completed'' (requests_of_cycle stats_db ''c2'') = 0
   \<and> completed_count (getCycleStats stats_db ''c2'') = None
   \<and> pending_count (getCycleStats stats_db ''c2'') = None
   \<and> overdue_count (getCycleStats stats_db ''c2'') = None
   \<and> length (requests_of_cycle tie_db ''c1'') = 160
   \<and> count_with_status ''completed'' (requests_of_cycle tie_db ''c1'') = 23
   \<and> round2 (23 / 160 * 100) = 1438 / 100
   \<and> completion_rate (getCycleStats tie_db ''c1'') = Some (to_double (1437 / 100))
   \<and> \<bar>to_double (1437 / 100) - 1437 / 100\<bar> \<le> 1 / 2 ^ 40"
proof -
  have e: "requests_of_cycle stats_db ''c2'' = []"
    by (simp add: requests_of_cycle_def stats_db_def request_in_def)
  have ne: "requests_of_cycle tie_db ''c1'' \<noteq> []" using tie_counts(1) by auto
  have "to_double (real 23) = real 23" "to_double (real 160) = real 160"
    by (rule to_double_of_nat, simp)+
  then have casts: "to_double 23 = 23" "to_double 160 = 160" by simp_all
  have rate: "completion_rate (getCycleStats tie_db ''c1'') = Some (to_double (1437 / 100))"
    unfolding getCycleStats_rate[OF ne] tie_counts using casts rate_23_160 by simp
  have "\<bar>to_double (1437 / 100) - 1437 / 100\<bar> \<le> \<bar>1437 / 100\<bar> / 2 ^ 53 + 1 / 2 ^ 1075"
    by (rule to_double_close)
  also have "\<dots> \<le> 1 / 2 ^ 40" by simp
  finally have close: "\<bar>to_double (1437 / 100) - 1437 / 100\<bar> \<le> 1 / 2 ^ 40" .
  have r: "round2 (23 / 160 * 100) = 1438 / 100" by (simp add: round2_def)
  show ?thesis
    using e tie_counts rate close r
    by (simp add: getCycleStats_empty count_with_status_def)
qed

text \<open>
  Claim C8, amended. \<^verbatim>\<open>getCycleStats\<close> returns the number of requests of the cycle.
  For a cycle with at least one request it returns the numbers of completed, pending
  and overdue requests, and, with fewer than \<open>2\<^sup>5\<^sup>3\<close> requests, so that the counts
  are doubles, a completion rate that is the double of a number with two decimals
  which is at most \<open>0.005 + 2\<^sup>-\<^sup>4\<^sup>0\<close> away from \<open>completed / total * 100\<close>; ten requests
  of which seven are completed give 70. For a cycle without requests the three counts
  and the completion rate are \<^verbatim>\<open>NULL\<close>, a defined value: the division by zero of SQLite
  is \<^verbatim>\<open>NULL\<close>, and the function, which is total, raises nothing.
\<close>

theorem cycle_stats:
  "total_requests (getCycleStats s cycleId) = int (length (requests_of_cycle s cycleId))
   \<and> (requests_of_cycle s cycleId \<noteq> [] \<longrightarrow>
        completed_count (getCycleStats s cycleId)
          = Some (int (count_with_status ''completed'' (requests_of_cycle s cycleId)))
      \<and> pending_count (getCycleStats s cycleId)
          = Some (int (count_with_status ''pending'' (requests_of_cycle s cycleId)))
      \<and> overdue_count (getCycleStats s cycleId)
          = Some (int (count_with_status ''overdue'' (requests_of_cycle s cycleId))))
   \<and> (requests_of_cycle s cycleId \<noteq> [] \<and> length (requests_of_cycle s cycleId) < 2 ^ 53 \<longrightarrow>
        (\<exists>k::int. completion_rate (getCycleStats s cycleId) = Some (to_double (real_of_int k / 100))
           \<and> \<bar>real_of_int k / 100
               - real (count_with_status ''completed'' (requests_of_cycle s cycleId))
                 / real (length (requests_of_cycle s cycleId)) * 100\<bar>
             \<le> 1 / 200 + 1 / 2 ^ 40))
   \<and> (requests_of_cycle s cycleId = [] \<longrightarrow>
        completed_count (getCycleStats s cycleId) = None
      \<and> pending_count (getCycleStats s cycleId) = None
      \<and> overdue_count (getCycleStats s cycleId) = None
      \<and> completion_rate (getCycleStats s cycleId) = None)
   \<and> (length (requests_of_cycle s cycleId) = 10
        \<and> count_with_status ''completed'' (requests_of_cycle s cycleId) = 7
        \<longrightarrow> completion_rate (getCycleStats s cycleId) = Some 70)"
proof (intro conjI impI)
  show "total_requests (getCycleStats s cycleId) = int (length (requests_of_cycle s cycleId))"
    by (cases "requests_of_cycle s cycleId = []")
       (simp_all add: getCycleStats_empty getCycleStats_counts)
next
  assume a: "requests_of_cycle s cycleId \<noteq> [] \<and> length (requests_of_cycle s cycleId) < 2 ^ 53"
  let ?c = "count_with_status ''completed'' (requests_of_cycle s cycleId)"
  let ?t = "length (requests_of_cycle s cycleId)"
  have t: "0 < ?t" "?t < 2 ^ 53" using a by simp_all
  have c: "?c \<le> ?t" by (rule count_with_status_le)
  then have "?c < 2 ^ 53" using t(2) by (rule le_less_trans)
  then have casts: "to_double (real ?c) = real ?c" "to_double (real ?t) = real ?t"
    using t(2) by (simp_all add: to_double_of_nat)
  have "completion_rate (getCycleStats s cycleId)
          = Some (sql_round2 (to_double (to_double (real ?c / real ?t) * 100)))"
    using getCycleStats_rate[of s cycleId] a unfolding casts by blast
  then show "\<exists>k::int. completion_rate (getCycleStats s cycleId)
                          = Some (to_double (real_of_int k / 100))
           \<and> \<bar>real_of_int k / 100 - real ?c / real ?t * 100\<bar> \<le> 1 / 200 + 1 / 2 ^ 40"
    using rate_close[OF t(1) c] by auto
next
  assume a: "length (requests_of_cycle s cycleId) = 10
        \<and> count_with_status ''completed'' (requests_of_cycle s cycleId) = 7"
  then have ne: "requests_of_cycle s cycleId \<noteq> []" by auto
  have "to_double (real 7) = real 7" "to_double (real 10) = real 10"
    by (rule to_double_of_nat, simp)+
  then have casts: "to_double 7 = 7" "to_double 10 = 10" by simp_all
  show "completion_rate (getCycleStats s cycleId) = Some 70"
    unfolding getCycleStats_rate[OF ne] using a casts rate_7_10 by simp
qed (simp_all add: getCycleStats_empty getCycleStats_counts)

theorem cycle_stats_witness:
  "requests_of_cycle stats_db ''c1'' \<noteq> []
   \<and> length (requests_of_cycle stats_db ''c1'') = 10
   \<and> count_with_status ''completed'' (requests_of_cycle stats_db ''c1'') = 7
   \<and> total_requests (getCycleStats stats_db ''c1'') = 10
   \<and> completed_count (getCycleStats stats_db ''c1'') = Some 7
   \<and> pending_count (getCycleStats stats_db ''c1'') = Some 2
   \<and> overdue_count (getCycleStats stats_db ''c1'') = Some 1
   \<and> completion_rate (getCycleStats stats_db ''c1'') = Some 70
   \<and> requests_of_cycle stats_db ''c2'' = []
   \<and> completion_rate (getCycleStats stats_db ''c2'') = None"
proof -
  have rows: "requests_of_cycle stats_db ''c1'' = feedback_requests stats_db"
    by (simp add: requests_of_cycle_def stats_db_def request_in_def)
  have n: "length (requests_of_cycle stats_db ''c1'') = 10"
    unfolding rows by (simp add: stats_db_def)
  have c: "count_with_status ''completed'' (requests_of_cycle stats_db ''c1'') = 7"
    unfolding rows by (simp add: stats_db_def request_in_def count_with_status_def)
  have p: "count_with_status ''pending'' (requests_of_cycle stats_db ''c1'') = 2"
    unfolding rows by (simp add: stats_db_def request_in_def count_with_status_def)
  have ov: "count_with_status ''overdue'' (requests_of_cycle stats_db ''c1'') = 1"
    unfolding rows by (simp add: stats_db_def request_in_def count_with_status_def)
  have ne: "requests_of_cycle stats_db ''c1'' \<noteq> []" using n by auto
  have e: "requests_of_cycle stats_db ''c2'' = []"
    by (simp add: requests_of_cycle_def stats_db_def request_in_def)
  show ?thesis
    using cycle_stats[of stats_db "''c1''"] cycle_stats[of stats_db "''c2''"] n c p ov ne e
    by simp
qed

subsection \<open>C9: the status of a cycle\<close>









text \<open>Past the end date the days are rounded up: a cycle without a completed request
  is closed one millisecond after the sixth day.\<close>

lemma closed_after_six_days:
  "map fc_status
     (feedback_cycles
        (autoCloseCycles (\<lambda>v. Some 1000)
           \<lparr>getTime = 1000 + 6 * ms_per_day + 1, toISOString = ''1970-01-07T00:00:01.001Z''\<rparr>
           (early_db\<lparr>feedback_requests := [request_in 1 ''pending'']\<rparr>)))
   = [''completed'']"
  by (simp add: early_db_def end_text_def request_in_def autoCloseCycles_def completionRate_def
        count_status_def sql_sum_def sql_less_def should_close_def daysPastEnd_def
        set_cycle_status_def ms_per_day_def Let_def)

text \<open>The comparison of the query is one of stored values, not of times. An end date
  written with a space, as \<^verbatim>\<open>CURRENT_TIMESTAMP\<close> writes dates, is below the text of
  every time of its day, and a number is below every text: the cycle that ends at the
  time 1000 and is completed to 100 percent is closed at the time 0 in both cases.\<close>

lemma closed_before_the_end:
  "map fc_status
     (feedback_cycles
        (autoCloseCycles (\<lambda>v. Some 1000)
           \<lparr>getTime = 0, toISOString = ''1970-01-01T00:00:00.000Z''\<rparr>
           (early_db\<lparr>feedback_cycles :=
              [\<lparr>fc_id = ''c1'', fc_end_date = Text ''1970-01-01 00:00:01'',
                fc_status = ''active''\<rparr>]\<rparr>)))
     = [''completed'']
   \<and> map fc_status
     (feedback_cycles
        (autoCloseCycles (\<lambda>v. Some 1000)
           \<lparr>getTime = 0, toISOString = ''1970-01-01T00:00:00.000Z''\<rparr>
           (early_db\<lparr>feedback_cycles :=
              [\<lparr>fc_id = ''c1'', fc_end_date = Number 1000, fc_status = ''active''\<rparr>]\<rparr>)))
     = [''completed'']"
  by (simp add: early_db_def end_text_def request_in_def autoCloseCycles_def completionRate_def
        count_status_def sql_sum_def sql_less_def should_close_def daysPastEnd_def
        set_cycle_status_def ms_per_day_def Let_def)



subsection \<open>C10: updating the status of a request\<close>

text \<open>
  Claim C10. \<^verbatim>\<open>updateRequestStatus(requestId, status)\<close> changes the rows of
  \<^verbatim>\<open>feedback_requests\<close> with that id and nothing else in the database. Such a row
  gets the new status; its \<^verbatim>\<open>completed_at\<close> becomes the current time when the status
  is \<^verbatim>\<open>completed\<close> (also when the row was completed before) and keeps its value for
  every other status, a move from \<^verbatim>\<open>completed\<close> back to \<^verbatim>\<open>pending\<close> included; all
  its other fields keep their values.
\<close>

theorem updateRequestStatus_frame:
  "updateRequestStatus now requestId status s
     = s\<lparr>feedback_requests := feedback_requests (updateRequestStatus now requestId status s)\<rparr>
   \<and> length (feedback_requests (updateRequestStatus now requestId status s))
       = length (feedback_requests s)
   \<and> (\<forall>i < length (feedback_requests s).
        let r = feedback_requests s ! i;
            r' = feedback_requests (updateRequestStatus now requestId status s) ! i
        in (fr_id r \<noteq> requestId \<longrightarrow> r' = r)
         \<and> (fr_id r = requestId \<longrightarrow>
              fr_status r' = status
            \<and> (status = ''completed'' \<longrightarrow> fr_completed_at r' = Some now)
            \<and> (status \<noteq> ''completed'' \<longrightarrow> fr_completed_at r' = fr_completed_at r)
            \<and> r'\<lparr>fr_status := fr_status r, fr_completed_at := fr_completed_at r\<rparr> = r))"
proof (intro conjI allI impI)
  show "updateRequestStatus now requestId status s
     = s\<lparr>feedback_requests := feedback_requests (updateRequestStatus now requestId status s)\<rparr>"
    by (simp add: updateRequestStatus_def)
next
  show "length (feedback_requests (updateRequestStatus now requestId status s))
       = length (feedback_requests s)"
    by (simp add: updateRequestStatus_def)
next
  fix i assume "i < length (feedback_requests s)"
  then show "let r = feedback_requests s ! i;
            r' = feedback_requests (updateRequestStatus now requestId status s) ! i
        in (fr_id r \<noteq> requestId \<longrightarrow> r' = r)
         \<and> (fr_id r = requestId \<longrightarrow>
              fr_status r' = status
            \<and> (status = ''completed'' \<longrightarrow> fr_completed_at r' = Some now)
            \<and> (status \<noteq> ''completed'' \<longrightarrow> fr_completed_at r' = fr_completed_at r)
            \<and> r'\<lparr>fr_status := fr_status r, fr_completed_at := fr_completed_at r\<rparr> = r)"
    by (simp add: updateRequestStatus_rows Let_def)
qed

theorem updateRequestStatus_frame_witness:
  "fr_status (feedback_requests (updateRequestStatus 5 1 ''completed'' early_db) ! 0)
     = ''completed''
   \<and> fr_completed_at (feedback_requests (updateRequestStatus 5 1 ''completed'' early_db) ! 0)
     = Some 5
   \<and> fr_status (feedback_requests
        (updateRequestStatus 9 1 ''pending''
           (updateRequestStatus 5 1 ''completed'' early_db)) ! 0) = ''pending''
   \<and> fr_completed_at (feedback_requests
        (updateRequestStatus 9 1 ''pending''
           (updateRequestStatus 5 1 ''completed'' early_db)) ! 0) = Some 5"
proof -
  let ?s1 = "updateRequestStatus 5 1 ''completed'' early_db"
  let ?s2 = "updateRequestStatus 9 1 ''pending'' ?s1"
  have l0: "0 < length (feedback_requests early_db)" by (simp add: early_db_def)
  have i0: "fr_id (feedback_requests early_db ! 0) = 1"
    by (simp add: early_db_def request_in_def)
  from updateRequestStatus_frame[of 5 1 "''completed''" early_db] l0 i0
  have first: "fr_status (feedback_requests ?s1 ! 0) = ''completed''"
      "fr_completed_at (feedback_requests ?s1 ! 0) = Some 5"
      "(feedback_requests ?s1 ! 0)\<lparr>fr_status := fr_status (feedback_requests early_db ! 0),
          fr_completed_at := fr_completed_at (feedback_requests early_db ! 0)\<rparr>
        = feedback_requests early_db ! 0"
      "length (feedback_requests ?s1) = length (feedback_requests early_db)"
    by (simp_all add: Let_def)
  have l1: "0 < length (feedback_requests ?s1)" using first(4) l0 by simp
  have "fr_id ((feedback_requests ?s1 ! 0)\<lparr>fr_status := fr_status (feedback_requests early_db ! 0),
          fr_completed_at := fr_completed_at (feedback_requests early_db ! 0)\<rparr>) = 1"
    unfolding first(3) by (rule i0)
  then have i1: "fr_id (feedback_requests ?s1 ! 0) = 1" by simp
  from updateRequestStatus_frame[of 9 1 "''pending''" ?s1] l1 i1
  have second: "fr_status (feedback_requests ?s2 ! 0) = ''pending''"
      "fr_completed_at (feedback_requests ?s2 ! 0) = fr_completed_at (feedback_requests ?s1 ! 0)"
    by (simp_all add: Let_def)
  show ?thesis using first(1,2) second by simp
qed

end
